theory Spec2Isabelle
  imports Main
begin

section \<open>JavaScript strings and the regular expressions the controller builds\<close>

text \<open>
  The controller (topologyWebviewController.ts) is TypeScript. Strings are modelled as
  \<open>string\<close>. The operations below are the library functions the controller calls:
  \<open>String.prototype.replace\<close> with a string pattern (it replaces the first occurrence
  only), the global replace that escapes the special characters of a regular expression,
  \<open>parseInt(_, 10)\<close> and \<open>Number.prototype.toString\<close>. Numbers are natural numbers:
  the only numbers of the controller are interface indices, which are counted up from 1
  (the doubles of JavaScript represent them exactly below \<open>2^53\<close>).
\<close>

fun js_replace :: "string \<Rightarrow> string \<Rightarrow> string \<Rightarrow> string" where
  "js_replace [] pat rep = (if pat = [] then rep else [])"
| "js_replace (c # cs) pat rep =
     (if take (length pat) (c # cs) = pat then rep @ drop (length pat) (c # cs)
      else c # js_replace cs pat rep)"

definition backslash :: char where
  "backslash = CHR 0x5C"

text \<open>The character class of \<open>/[.*+?^${}()|[\]\\]/g\<close>.\<close>

definition regex_special :: "char \<Rightarrow> bool" where
  "regex_special c = (c \<in> set ''.*+?^${}()|[]'' \<or> c = backslash)"

text \<open>\<open>s.replace(/[.*+?^${}()|[\]\\]/g, '\\$&')\<close>: every special character gets a backslash.\<close>

definition escapeRegExp :: "string \<Rightarrow> string" where
  "escapeRegExp s = concat (map (\<lambda>c. if regex_special c then [backslash, c] else [c]) s)"

definition is_digit :: "char \<Rightarrow> bool" where
  "is_digit c = (c \<in> set ''0123456789'')"

definition digit_val :: "char \<Rightarrow> nat" where
  "digit_val c = of_char c - 48"

text \<open>
  \<open>parseInt(x, 10)\<close> where \<open>x\<close> is \<open>undefined\<close> (\<open>None\<close>) or a string: the value of
  the leading decimal digits, and \<open>NaN\<close> (\<open>None\<close>) when there are none. The controller
  only passes a capture of \<open>\d+\<close> or \<open>undefined\<close>.
\<close>

definition parseInt :: "string option \<Rightarrow> nat option" where
  "parseInt x =
     (case x of
        None \<Rightarrow> None
      | Some s \<Rightarrow>
          (let ds = takeWhile is_digit s
           in if ds = [] then None else Some (foldl (\<lambda>n c. 10 * n + digit_val c) 0 ds)))"

function toString :: "nat \<Rightarrow> string" where
  "toString n =
     (if n < 10 then [''0123456789'' ! n]
      else toString (n div 10) @ [''0123456789'' ! (n mod 10)])"
  by pat_completeness auto
termination
  by (relation "measure id") auto

declare toString.simps [simp del]

text \<open>
  The regular expressions of the controller are \<open>'^' + body + '$'\<close>, where the body is
  an escaped literal in which the placeholder was replaced by the group \<open>(\d+)\<close>. This
  is the fragment modelled: a sequence of literal characters (plain, or a special
  character after a backslash) and digit groups, anchored at both ends. A source string
  outside the fragment compiles to \<open>None\<close>.
\<close>

datatype rtok = Lit char | Digits

definition digits_group :: string where
  "digits_group = [CHR ''('', backslash, CHR ''d'', CHR ''+'', CHR '')'']"

function regex_tokens :: "string \<Rightarrow> rtok list option" where
  "regex_tokens [] = Some []"
| "regex_tokens (c # cs) =
     (if take 5 (c # cs) = digits_group
        then map_option (Cons Digits) (regex_tokens (drop 5 (c # cs)))
      else if c = backslash
        then (case cs of
                [] \<Rightarrow> None
              | d # ds \<Rightarrow> if regex_special d then map_option (Cons (Lit d)) (regex_tokens ds)
                         else None)
      else if regex_special c then None
      else map_option (Cons (Lit c)) (regex_tokens cs))"
  by pat_completeness auto
termination
  by (relation "measure length") auto

definition newRegExp :: "string \<Rightarrow> rtok list option" where
  "newRegExp src =
     (case src of
        [] \<Rightarrow> None
      | c # cs \<Rightarrow>
          if c = CHR ''^'' \<and> cs \<noteq> [] \<and> last cs = CHR ''$'' then regex_tokens (butlast cs)
          else None)"

fun first_some :: "('a \<Rightarrow> 'b option) \<Rightarrow> 'a list \<Rightarrow> 'b option" where
  "first_some f [] = None"
| "first_some f (x # xs) = (case f x of Some y \<Rightarrow> Some y | None \<Rightarrow> first_some f xs)"

text \<open>
  \<open>rmatch ts s\<close> matches the whole of \<open>s\<close> against the tokens. The result is \<open>None\<close>
  when there is no match (\<open>null\<close>), and otherwise \<open>Some g\<close> with \<open>g\<close> the capture
  \<open>match[1]\<close>: the text of the first group, \<open>None\<close> (\<open>undefined\<close>) when the expression
  has no group. A group is greedy: the longest run of digits is tried first, then
  shorter ones.
\<close>

primrec rmatch :: "rtok list \<Rightarrow> string \<Rightarrow> string option option" where
  "rmatch [] = (\<lambda>s. if s = [] then Some None else None)"
| "rmatch (t # ts) = (\<lambda>s.
     case t of
       Lit c \<Rightarrow> (case s of [] \<Rightarrow> None | x # xs \<Rightarrow> if x = c then rmatch ts xs else None)
     | Digits \<Rightarrow>
         first_some
           (\<lambda>k. case rmatch ts (drop k s) of None \<Rightarrow> None | Some _ \<Rightarrow> Some (Some (take k s)))
           (rev [1 ..< Suc (length (takeWhile is_digit s))]))"

text \<open>\<open>s.match(re)\<close> for a compiled expression; an expression outside the fragment matches nothing.\<close>

definition js_match :: "string \<Rightarrow> rtok list option \<Rightarrow> string option option" where
  "js_match s re = (case re of None \<Rightarrow> None | Some ts \<Rightarrow> rmatch ts s)"

section \<open>The element model\<close>

text \<open>
  The Cytoscape core \<open>cy\<close> holds the elements in order. An element has a group (node or
  edge), a data object and a list of classes. A data object is a list of key/value pairs
  in insertion order; a value is a string or a nested object of strings (\<open>extraData\<close>).
  The identity, the endpoints of an edge, the parent of a node, the role
  \<open>topoViewerRole\<close> and the provenance flag \<open>editor\<close> are entries of the data object, as
  in NodeData and EdgeData.
\<close>

datatype jsval = Str string | Obj "(string \<times> string) list"

type_synonym jsobj = "(string \<times> jsval) list"

datatype elgroup = Nodes | Edges

record element =
  el_group :: elgroup
  el_data :: jsobj
  el_classes :: "string list"
  el_grabbable :: bool

text \<open>Assignment \<open>obj[k] = v\<close>: an existing key keeps its position, a new key is appended.\<close>

fun obj_set :: "string \<Rightarrow> 'v \<Rightarrow> (string \<times> 'v) list \<Rightarrow> (string \<times> 'v) list" where
  "obj_set k v [] = [(k, v)]"
| "obj_set k v ((k', v') # kvs) =
     (if k' = k then (k, v) # kvs else (k', v') # obj_set k v kvs)"

text \<open>\<open>ele.data(key)\<close>, and \<open>ele.id()\<close>.\<close>

definition data_get :: "element \<Rightarrow> string \<Rightarrow> jsval option" where
  "data_get e k = map_of (el_data e) k"

definition el_id :: "element \<Rightarrow> string option" where
  "el_id e = (case data_get e ''id'' of Some (Str s) \<Rightarrow> Some s | _ \<Rightarrow> None)"

definition isNode :: "element \<Rightarrow> bool" where
  "isNode e = (el_group e = Nodes)"

definition isEdge :: "element \<Rightarrow> bool" where
  "isEdge e = (el_group e = Edges)"

text \<open>\<open>cy.getElementById(id)\<close>: the element with that id, or the empty collection.\<close>

definition getElementById :: "element list \<Rightarrow> string \<Rightarrow> element option" where
  "getElementById els i = find (\<lambda>e. el_id e = Some i) els"

text \<open>\<open>ele.id()\<close>: every element of a core has an id.\<close>

definition idOf :: "element \<Rightarrow> string" where
  "idOf e = (case el_id e of Some i \<Rightarrow> i | None \<Rightarrow> [])"

text \<open>
  Compound nodes. \<open>node.parent()\<close> is the node named by \<open>data.parent\<close>, if it is in the
  graph; \<open>node.children()\<close> are the nodes that name this node as their parent;
  \<open>isChild\<close> and \<open>isParent\<close> say whether these are non-empty; \<open>a.same(b)\<close> on two single
  elements says that they are the same element of the core.
\<close>

definition parentOf :: "element list \<Rightarrow> element \<Rightarrow> element option" where
  "parentOf els n =
     (case data_get n ''parent'' of
        Some (Str p) \<Rightarrow> find (\<lambda>e. isNode e \<and> el_id e = Some p) els
      | _ \<Rightarrow> None)"

definition children :: "element list \<Rightarrow> element \<Rightarrow> element list" where
  "children els n =
     filter (\<lambda>m. isNode m \<and> data_get m ''parent'' = Some (Str (idOf n))) els"

definition isChild :: "element list \<Rightarrow> element \<Rightarrow> bool" where
  "isChild els n = (isNode n \<and> parentOf els n \<noteq> None)"

definition isParent :: "element list \<Rightarrow> element \<Rightarrow> bool" where
  "isParent els n = (isNode n \<and> children els n \<noteq> [])"

definition same :: "element \<Rightarrow> element \<Rightarrow> bool" where
  "same a b = (el_id a = el_id b)"

text \<open>
  \<open>ele.remove()\<close>. Removing an edge removes that edge. Removing a node removes the node,
  its descendants, and every edge connected to a removed node. The descendants are
  collected level by level, in as many rounds as the graph has elements (no chain of
  parents is longer).
\<close>

fun withDescendants :: "nat \<Rightarrow> element list \<Rightarrow> string list \<Rightarrow> string list" where
  "withDescendants 0 els ids = ids"
| "withDescendants (Suc k) els ids =
     withDescendants k els
       (ids @ map idOf (filter (\<lambda>m. isNode m \<and> idOf m \<notin> set ids \<and>
                                    (\<exists>p \<in> set ids. data_get m ''parent'' = Some (Str p))) els))"

definition removeElement :: "element list \<Rightarrow> string \<Rightarrow> element list" where
  "removeElement els i =
     (case getElementById els i of
        None \<Rightarrow> els
      | Some e \<Rightarrow>
          if isEdge e then filter (\<lambda>x. el_id x \<noteq> Some i) els
          else
            (let gone = withDescendants (length els) els [i]
             in filter (\<lambda>x. idOf x \<notin> set gone \<and>
                           \<not> (isEdge x \<and>
                              (\<exists>g \<in> set gone. data_get x ''source'' = Some (Str g) \<or>
                                                data_get x ''target'' = Some (Str g)))) els))"

text \<open>
  \<open>node.move({ parent: null })\<close>: the node loses its parent; nothing else of the node,
  and no other element, changes.
\<close>

definition moveToNoParent :: "element list \<Rightarrow> string \<Rightarrow> element list" where
  "moveToNoParent els i =
     map (\<lambda>e. if el_id e = Some i
               then e\<lparr>el_data := filter (\<lambda>kv. fst kv \<noteq> ''parent'') (el_data e)\<rparr>
               else e) els"

text \<open>
  \<open>ele.data(obj)\<close> assigns every entry of \<open>obj\<close> but those of the keys that Cytoscape
  keeps immutable; \<open>ele.classes(str)\<close> replaces the classes by the words of \<open>str\<close>.
\<close>

definition immutableKey :: "string \<Rightarrow> bool" where
  "immutableKey k = (k \<in> set [''id'', ''source'', ''target'', ''parent''])"

definition data_assign :: "jsobj \<Rightarrow> jsobj \<Rightarrow> jsobj" where
  "data_assign d obj = foldl (\<lambda>acc kv. if immutableKey (fst kv) then acc
                                        else obj_set (fst kv) (snd kv) acc) d obj"

definition is_space :: "char \<Rightarrow> bool" where
  "is_space c = (c \<in> set [CHR '' '', CHR 0x09, CHR 0x0A, CHR 0x0B, CHR 0x0C, CHR 0x0D])"

fun words_from :: "string \<Rightarrow> string \<Rightarrow> string list" where
  "words_from w [] = (if w = [] then [] else [w])"
| "words_from w (c # cs) =
     (if is_space c then (if w = [] then [] else [w]) @ words_from [] cs
      else words_from (w @ [c]) cs)"

text \<open>\<open>str.match(/\S+/g) || []\<close>: the words of a string.\<close>

definition splitWords :: "string \<Rightarrow> string list" where
  "splitWords str = words_from [] str"

text \<open>
  Cytoscape keeps the classes of an element as a set, listed in the order of first
  insertion: a word that is repeated in the string counts once.
\<close>

fun firstOccurrences :: "'a list \<Rightarrow> 'a list" where
  "firstOccurrences [] = []"
| "firstOccurrences (x # xs) = x # firstOccurrences (filter (\<lambda>y. y \<noteq> x) xs)"

definition classList :: "string \<Rightarrow> string list" where
  "classList str = firstOccurrences (splitWords str)"

text \<open>The element of the core with the given id is replaced by its image under \<open>f\<close>.\<close>

definition updateElement :: "element list \<Rightarrow> string \<Rightarrow> (element \<Rightarrow> element) \<Rightarrow> element list" where
  "updateElement els i f = map (\<lambda>e. if el_id e = Some i then f e else e) els"

section \<open>The controller\<close>

text \<open>
  The state of \<open>TopologyWebviewController\<close>, with the parts of the rendering surface and
  of \<open>window\<close> that its methods read and write.
  \<^item> \<open>cy\<close>: the elements of the Cytoscape core; \<open>cyListeners\<close>: the handlers registered
    with \<open>cy.on\<close>, in registration order; \<open>cxtmenus\<close>: the context menus registered
    with \<open>cy.cxtmenu\<close>; \<open>private_cxtmenu\<close>: the menu instances listed under
    \<open>cy._private.cxtmenu\<close>, \<open>None\<close> when that field is undefined;
    \<open>containerCursor\<close>: \<open>cy.container().style.cursor\<close>, \<open>None\<close> when the core has no
    container.
  \<^item> \<open>eh\<close>: the edgehandles instance (\<open>None\<close> in view mode, where it is never created),
    with its enabled flag and the ids of the nodes passed to \<open>eh.start\<close>, latest first.
  \<^item> \<open>window_isLabDeployed\<close>, \<open>window_ifacePatternMapping\<close>: the globals of \<open>window\<close>;
    \<open>None\<close> is \<open>undefined\<close>.
  \<^item> \<open>fabDeployedAttr\<close>: the attribute \<open>data-is-lab-deployed\<close> of the element
    \<open>fab-main\<close>, \<open>None\<close> when the controller has no floating action panel.
  \<^item> \<open>timeout\<close>: the timer that the debounced \<open>autoSave\<close> holds in its variable
    \<open>timeout\<close>, as the time at which it fires; \<open>None\<close> when no timer is pending (none
    was set, or the last one has fired). \<open>clock\<close>: the current time in milliseconds;
    \<open>saveStarted\<close>: the times at which \<open>saveManager.viewportButtonsSaveTopo\<close> was called
    (by the timer or by the Save button), latest first; \<open>saveInFlight\<close>: how many of
    these calls have not been answered yet.
  \<^item> \<open>ungrabifyCalls\<close> counts the calls of \<open>cy.nodes().ungrabify()\<close>.
  \<^item> \<open>nodeClicked\<close> is \<open>viewportPanels.nodeClicked\<close>; the other fields are the fields of
    the class with the same names.
\<close>

datatype handler =
    RecordTap | BlockTap | BlockCxtTapElements | BlockCxtTapCanvas | BlockGrab
  | AutoSave | AutoSaveUnlessGrabbed

datatype menu = FreeTextMenu | NodeMenu | GroupMenu | EdgeMenu

record listener =
  l_events :: string
  l_selector :: "string option"
  l_handler :: handler

record edgehandles =
  eh_enabled :: bool
  eh_startCalls :: "string list"

record controller =
  cy :: "element list"
  cyListeners :: "listener list"
  cxtmenus :: "menu list"
  private_cxtmenu :: "menu list option"
  containerCursor :: "string option"
  eh :: "edgehandles option"
  isEdgeHandlerActive :: bool
  isViewportDrawerClabEditorChecked :: bool
  isEditingLocked :: bool
  interfaceCounters :: "(string \<times> nat) list"
  nodeClicked :: bool
  window_isLabDeployed :: "bool option"
  window_ifacePatternMapping :: "(string \<times> string) list option"
  fabDeployedAttr :: "string option"
  timeout :: "nat option"
  clock :: nat
  saveStarted :: "nat list"
  saveInFlight :: nat
  ungrabifyCalls :: nat

section \<open>The endpoint allocator\<close>

text \<open>
  \<open>node.data('extraData')?.kind || 'default'\<close> for a node, and for the result of
  \<open>cy.getElementById(nodeId)\<close>, which is empty when no element has the id.
\<close>

definition kindOf :: "element \<Rightarrow> string" where
  "kindOf node =
     (case data_get node ''extraData'' of
        Some (Obj extraData) \<Rightarrow>
          (case map_of extraData ''kind'' of
             Some k \<Rightarrow> if k = [] then ''default'' else k
           | None \<Rightarrow> ''default'')
      | _ \<Rightarrow> ''default'')"

definition nodeKind :: "controller \<Rightarrow> string \<Rightarrow> string" where
  "nodeKind s nodeId =
     (case getElementById (cy s) nodeId of
        None \<Rightarrow> ''default''
      | Some node \<Rightarrow> kindOf node)"

text \<open>
  \<open>ifaceMap[kind] || 'eth{n}'\<close> with \<open>ifaceMap = window.ifacePatternMapping || {}\<close>; the
  mapping is a plain object of strings, looked up by its own entries.
\<close>

definition ifacePattern :: "controller \<Rightarrow> string \<Rightarrow> string" where
  "ifacePattern s kind =
     (let ifaceMap = (case window_ifacePatternMapping s of None \<Rightarrow> [] | Some m \<Rightarrow> m)
      in case map_of ifaceMap kind of
           Some p \<Rightarrow> if p = [] then ''eth{n}'' else p
         | None \<Rightarrow> ''eth{n}'')"

definition patternRegex :: "string \<Rightarrow> rtok list option" where
  "patternRegex pattern =
     (let placeholder = ''__N__'';
          escaped = escapeRegExp (js_replace pattern ''{n}'' placeholder);
          regexStr = ''^'' @ js_replace escaped placeholder digits_group @ ''$''
      in newRegExp regexStr)"

text \<open>
  \<open>cy.edges(`[source = "${nodeId}"], [target = "${nodeId}"]`)\<close>: the edges whose source
  or target is the node. (The id is interpolated into the selector between double quotes;
  node ids are taken to be free of double quotes and backslashes, as containerlab node
  names are.)
\<close>

definition incidentEdges :: "controller \<Rightarrow> string \<Rightarrow> element list" where
  "incidentEdges s nodeId =
     filter (\<lambda>e. isEdge e \<and>
                (data_get e ''source'' = Some (Str nodeId) \<or>
                 data_get e ''target'' = Some (Str nodeId))) (cy s)"

text \<open>
  The body of the inner \<open>forEach\<close> for one edge and one key: the numbers it adds to
  \<open>usedNumbers\<close> (at most one; \<open>None\<close> is \<open>NaN\<close>). EdgeData declares both endpoints as
  strings; an endpoint that is missing or empty is skipped.
\<close>

definition endpointNumber :: "rtok list option \<Rightarrow> string \<Rightarrow> element \<Rightarrow> string \<Rightarrow> nat option list" where
  "endpointNumber re nodeId edge key =
     (let isNodeEndpoint =
            (data_get edge ''source'' = Some (Str nodeId) \<and> key = ''sourceEndpoint'') \<or>
            (data_get edge ''target'' = Some (Str nodeId) \<and> key = ''targetEndpoint'')
      in case data_get edge key of
           Some (Str endpoint) \<Rightarrow>
             if endpoint = [] \<or> \<not> isNodeEndpoint then []
             else (case js_match endpoint re of
                     None \<Rightarrow> []
                   | Some g \<Rightarrow> [parseInt g])
         | _ \<Rightarrow> [])"

definition usedNumbers :: "controller \<Rightarrow> string \<Rightarrow> nat option list" where
  "usedNumbers s nodeId =
     (let re = patternRegex (ifacePattern s (nodeKind s nodeId))
      in concat (map (\<lambda>edge. concat (map (endpointNumber re nodeId edge)
                                        [''sourceEndpoint'', ''targetEndpoint'']))
                   (incidentEdges s nodeId)))"

text \<open>\<open>while (usedNumbers.has(endpointNum)) endpointNum++\<close>.\<close>

function nextFree :: "nat option list \<Rightarrow> nat \<Rightarrow> nat" where
  "nextFree used n = (if Some n \<in> set used then nextFree used (Suc n) else n)"
  by pat_completeness auto
termination
proof (relation "measure (\<lambda>(used, n). Suc (sum_list (map (\<lambda>x. case x of None \<Rightarrow> 0 | Some k \<Rightarrow> k) used)) - n)")
  show "wf (measure (\<lambda>(used, n). Suc (sum_list (map (\<lambda>x. case x of None \<Rightarrow> 0 | Some k \<Rightarrow> k) used)) - n))"
    by simp
next
  fix used :: "nat option list" and n :: nat
  assume "Some n \<in> set used"
  then have "n \<le> sum_list (map (\<lambda>x. case x of None \<Rightarrow> 0 | Some k \<Rightarrow> k) used)"
    by (induction used) auto
  then show "((used, Suc n), (used, n))
      \<in> measure (\<lambda>(used, n). Suc (sum_list (map (\<lambda>x. case x of None \<Rightarrow> 0 | Some k \<Rightarrow> k) used)) - n)"
    by simp
qed

declare nextFree.simps [simp del]

definition getNextEndpoint :: "controller \<Rightarrow> string \<Rightarrow> string" where
  "getNextEndpoint s nodeId =
     (let pattern = ifacePattern s (nodeKind s nodeId);
          endpointNum = nextFree (usedNumbers s nodeId) 1
      in js_replace pattern ''{n}'' (toString endpointNum))"

text \<open>
  The handler of \<open>ehcomplete\<close>: the edge that edgehandles has added gets the two
  allocated endpoints and the provenance flag. (The handler also starts a timer that
  clears \<open>isEdgeHandlerActive\<close> 100 ms later; that callback is \<open>ehGraceTimeout\<close>.)
\<close>

definition ehcomplete :: "controller \<Rightarrow> element \<Rightarrow> element \<Rightarrow> element \<Rightarrow> controller" where
  "ehcomplete s sourceNode targetNode addedEdge =
     (let sourceEndpoint = getNextEndpoint s (idOf sourceNode);
          targetEndpoint = getNextEndpoint s (idOf targetNode)
      in s\<lparr>cy := updateElement (cy s) (idOf addedEdge)
                  (\<lambda>e. e\<lparr>el_data := data_assign (el_data e)
                            [(''sourceEndpoint'', Str sourceEndpoint),
                             (''targetEndpoint'', Str targetEndpoint),
                             (''editor'', Str ''true'')]\<rparr>)\<rparr>)"

definition ehGraceTimeout :: "controller \<Rightarrow> controller" where
  "ehGraceTimeout s = s\<lparr>isEdgeHandlerActive := False\<rparr>"

section \<open>The edge-draw subsystem\<close>

text \<open>The option \<open>canConnect\<close> passed to edgehandles.\<close>

definition canConnect :: "element list \<Rightarrow> element \<Rightarrow> element \<Rightarrow> bool" where
  "canConnect els sourceNode targetNode =
     (let sourceRole = data_get sourceNode ''topoViewerRole'';
          targetRole = data_get targetNode ''topoViewerRole''
      in sourceRole \<noteq> Some (Str ''freeText'') \<and>
         targetRole \<noteq> Some (Str ''freeText'') \<and>
         \<not> same sourceNode targetNode \<and>
         \<not> isParent els sourceNode \<and>
         \<not> isParent els targetNode \<and>
         targetRole \<noteq> Some (Str ''dummyChild''))"

text \<open>
  The option \<open>edgeParams\<close>: it counts in \<open>interfaceCounters\<close> and proposes endpoint names
  from the counters. The result is the proposed edge data and the controller with the
  counters updated.
\<close>

definition edgeParams :: "controller \<Rightarrow> element \<Rightarrow> element \<Rightarrow> (string \<times> string) list \<times> controller" where
  "edgeParams s sourceNode targetNode =
     (let srcKind = kindOf sourceNode;
          dstKind = kindOf targetNode;
          srcPattern = ifacePattern s srcKind;
          dstPattern = ifacePattern s dstKind;
          srcCount = (case map_of (interfaceCounters s) (idOf sourceNode) of
                        None \<Rightarrow> 0 | Some c \<Rightarrow> c) + 1;
          counters1 = obj_set (idOf sourceNode) srcCount (interfaceCounters s);
          dstCount = (case map_of counters1 (idOf targetNode) of
                        None \<Rightarrow> 0 | Some c \<Rightarrow> c) + 1;
          counters2 = obj_set (idOf targetNode) dstCount counters1
      in ([(''id'', idOf sourceNode @ ''-'' @ idOf targetNode),
           (''source'', idOf sourceNode),
           (''target'', idOf targetNode),
           (''sourceEndpoint'', js_replace srcPattern ''{n}'' (toString srcCount)),
           (''targetEndpoint'', js_replace dstPattern ''{n}'' (toString dstCount))],
          s\<lparr>interfaceCounters := counters2\<rparr>))"

section \<open>Autosave\<close>

text \<open>
  \<open>debounce(func, 500)\<close>: a call of the debounced function \<open>autoSave\<close> clears the
  pending timer and starts a new one.
\<close>

definition wait :: nat where
  "wait = 500"

definition autoSave :: "controller \<Rightarrow> controller" where
  "autoSave s = s\<lparr>timeout := Some (clock s + wait)\<rparr>"

text \<open>
  The listeners of \<open>setupAutoSave\<close>: \<open>add\<close>, \<open>remove\<close>, \<open>data\<close> and \<open>dragfree\<close> call
  \<open>autoSave\<close>; \<open>position\<close> calls it unless the element is grabbed.
\<close>

datatype cyEvent = Add | Remove | Data | Position bool | Dragfree

definition autoSaveListeners :: "listener list" where
  "autoSaveListeners =
     [\<lparr>l_events = ''add remove data'', l_selector = None, l_handler = AutoSave\<rparr>,
      \<lparr>l_events = ''position'', l_selector = None, l_handler = AutoSaveUnlessGrabbed\<rparr>,
      \<lparr>l_events = ''dragfree'', l_selector = Some ''node'', l_handler = AutoSave\<rparr>]"

definition setupAutoSave :: "controller \<Rightarrow> controller" where
  "setupAutoSave s = s\<lparr>cyListeners := cyListeners s @ autoSaveListeners\<rparr>"

definition onCyEvent :: "controller \<Rightarrow> cyEvent \<Rightarrow> controller" where
  "onCyEvent s ev =
     (case ev of
        Position grabbed \<Rightarrow> if \<not> grabbed then autoSave s else s
      | _ \<Rightarrow> autoSave s)"

text \<open>
  An \<open>add\<close> or \<open>data\<close> event that a method of the controller itself causes reaches
  \<open>autoSave\<close> when a listener for that event with that handler is registered, as it is
  after \<open>setupAutoSave\<close>.
\<close>

definition listensFor :: "controller \<Rightarrow> string \<Rightarrow> bool" where
  "listensFor s name =
     (\<exists>l \<in> set (cyListeners s). l_handler l = AutoSave \<and> name \<in> set (splitWords (l_events l)))"

definition emitData :: "controller \<Rightarrow> controller" where
  "emitData s = (if listensFor s ''data'' then onCyEvent s Data else s)"

definition emitAdd :: "controller \<Rightarrow> controller" where
  "emitAdd s = (if listensFor s ''add'' then onCyEvent s Add else s)"

section \<open>The updateTopology message\<close>

text \<open>
  A patch is an entry of the array \<open>msg.data\<close>: an optional group, an optional data
  object and an optional \<open>classes\<close> string; the entry itself may be \<open>null\<close> (\<open>None\<close>).
  \<open>patchId\<close> is \<open>el?.data?.id\<close>; it is falsy when the entry, its data or the id is
  missing, and when the id is the empty string (ids are strings).
\<close>

record patch =
  p_group :: "elgroup option"
  p_data :: "jsobj option"
  p_classes :: "string option"

definition patchId :: "patch option \<Rightarrow> string option" where
  "patchId el =
     (case el of
        None \<Rightarrow> None
      | Some p \<Rightarrow>
          (case p_data p of
             None \<Rightarrow> None
           | Some d \<Rightarrow>
               (case map_of d ''id'' of
                  Some (Str i) \<Rightarrow> if i = [] then None else Some i
                | _ \<Rightarrow> None)))"

text \<open>
  \<open>cy.add(el)\<close>. Without a group, an element that has a source and a target is an
  edge, any other a node. A node whose \<open>parent\<close> names no element of the graph loses
  that entry. An edge must name an existing element as its source and as its target:
  otherwise \<open>cy.add\<close> throws (the source is checked first) and adds nothing. An element
  that is accepted is appended to the graph, which emits an \<open>add\<close> event.
\<close>

datatype cyError = UnspecifiedEndpoint string | NonexistentEndpoint string

definition patchGroup :: "patch \<Rightarrow> elgroup" where
  "patchGroup p =
     (let d = (case p_data p of None \<Rightarrow> [] | Some d \<Rightarrow> d)
      in case p_group p of
           Some g \<Rightarrow> g
         | None \<Rightarrow> if map_of d ''source'' \<noteq> None \<and> map_of d ''target'' \<noteq> None
                    then Edges else Nodes)"

definition newElement :: "element list \<Rightarrow> patch \<Rightarrow> element" where
  "newElement els p =
     (let d = (case p_data p of None \<Rightarrow> [] | Some d \<Rightarrow> d);
          parentMissing =
            (case map_of d ''parent'' of
               None \<Rightarrow> False
             | Some (Str q) \<Rightarrow> getElementById els q = None
             | Some (Obj _) \<Rightarrow> True)
      in \<lparr>el_group = patchGroup p,
          el_data = (if patchGroup p = Nodes \<and> parentMissing
                     then filter (\<lambda>kv. fst kv \<noteq> ''parent'') d else d),
          el_classes = (case p_classes p of None \<Rightarrow> [] | Some c \<Rightarrow> classList c),
          el_grabbable = True\<rparr>)"

definition endpointError :: "element list \<Rightarrow> jsobj \<Rightarrow> string \<Rightarrow> cyError option" where
  "endpointError els d field =
     (case map_of d field of
        None \<Rightarrow> Some (UnspecifiedEndpoint field)
      | Some (Str v) \<Rightarrow>
          if v = [] then Some (UnspecifiedEndpoint field)
          else if getElementById els v = None then Some (NonexistentEndpoint field)
          else None
      | Some (Obj _) \<Rightarrow> Some (NonexistentEndpoint field))"

definition edgeError :: "element list \<Rightarrow> patch \<Rightarrow> cyError option" where
  "edgeError els p =
     (let d = (case p_data p of None \<Rightarrow> [] | Some d \<Rightarrow> d)
      in if patchGroup p = Edges
         then (case endpointError els d ''source'' of
                 Some err \<Rightarrow> Some err
               | None \<Rightarrow> endpointError els d ''target'')
         else None)"

definition cyAdd :: "controller \<Rightarrow> patch \<Rightarrow> cyError + controller" where
  "cyAdd s p =
     (case edgeError (cy s) p of
        Some err \<Rightarrow> Inl err
      | None \<Rightarrow> Inr (emitAdd (s\<lparr>cy := cy s @ [newElement (cy s) p]\<rparr>)))"

text \<open>
  The update of an existing element: \<open>existing.data(el.data)\<close>, and
  \<open>existing.classes(el.classes)\<close> when \<open>el.classes\<close> is a string. \<open>ele.data(obj)\<close> emits
  a \<open>data\<close> event.
\<close>

definition patchExisting :: "patch \<Rightarrow> element \<Rightarrow> element" where
  "patchExisting p existing =
     (let e1 = existing\<lparr>el_data := data_assign (el_data existing)
                           (case p_data p of None \<Rightarrow> [] | Some d \<Rightarrow> d)\<rparr>
      in case p_classes p of
           Some c \<Rightarrow> e1\<lparr>el_classes := classList c\<rparr>
         | None \<Rightarrow> e1)"

text \<open>
  The body of \<open>elements.forEach\<close> for one entry: the controller it leaves, or the error
  that \<open>cy.add\<close> throws.
\<close>

definition applyPatch :: "controller \<Rightarrow> patch option \<Rightarrow> cyError + controller" where
  "applyPatch s el =
     (case patchId el of
        None \<Rightarrow> Inr s
      | Some i \<Rightarrow>
          (case el of
             None \<Rightarrow> Inr s
           | Some p \<Rightarrow>
               (case getElementById (cy s) i of
                  Some existing \<Rightarrow>
                    Inr (emitData (s\<lparr>cy := updateElement (cy s) i (patchExisting p)\<rparr>))
                | None \<Rightarrow> cyAdd s p)))"

text \<open>
  \<open>elements.forEach\<close> inside the handler's \<open>try\<close>: an error thrown for one entry leaves
  the loop, is caught and logged, and the entries after it are not processed; what the
  entries before it did stays.
\<close>

fun forEachPatch :: "controller \<Rightarrow> patch option list \<Rightarrow> controller" where
  "forEachPatch s [] = s"
| "forEachPatch s (el # rest) =
     (case applyPatch s el of
        Inl err \<Rightarrow> s
      | Inr s' \<Rightarrow> forEachPatch s' rest)"

text \<open>
  The handler of the message \<open>updateTopology\<close>; \<open>None\<close> is a \<open>msg.data\<close> that is not an
  array. After the loop the handler calls \<open>loadCytoStyle\<close>, which restyles the graph;
  styles are not part of the state modelled here.
\<close>

definition updateTopology :: "controller \<Rightarrow> patch option list option \<Rightarrow> controller" where
  "updateTopology s elements =
     (case elements of
        None \<Rightarrow> s
      | Some els \<Rightarrow> forEachPatch s els)"

section \<open>The deployment lock\<close>

definition checkDeploymentState :: "controller \<Rightarrow> controller" where
  "checkDeploymentState s = s\<lparr>isEditingLocked := (window_isLabDeployed s = Some True)\<rparr>"

definition isEditingBlocked :: "controller \<Rightarrow> bool" where
  "isEditingBlocked s = isEditingLocked s"

text \<open>
  \<open>disableEditingContextMenus\<close> destroys the menu instances it finds under
  \<open>cy._private.cxtmenu\<close>, clears that field and removes the data entry \<open>cxtmenu\<close> from
  every element. \<open>cy.elements().removeData\<close> emits a \<open>data\<close> event on the elements, so
  with a graph that is not empty the autosave timer is restarted.
\<close>

definition disableEditingContextMenus :: "controller \<Rightarrow> controller" where
  "disableEditingContextMenus s =
     (let instances = (case private_cxtmenu s of None \<Rightarrow> [] | Some ms \<Rightarrow> ms);
          s1 = s\<lparr>cxtmenus := filter (\<lambda>m. m \<notin> set instances) (cxtmenus s),
                 private_cxtmenu := None,
                 cy := map (\<lambda>e. e\<lparr>el_data := filter (\<lambda>kv. fst kv \<noteq> ''cxtmenu'') (el_data e)\<rparr>)
                         (cy s)\<rparr>
      in if cy s = [] then s1 else emitData s1)"

text \<open>The four listeners that \<open>applyEditingRestrictions\<close> registers, in its order.\<close>

definition restrictionListeners :: "listener list" where
  "restrictionListeners =
     [\<lparr>l_events = ''tap'', l_selector = None, l_handler = BlockTap\<rparr>,
      \<lparr>l_events = ''cxttap'', l_selector = Some ''node, edge'', l_handler = BlockCxtTapElements\<rparr>,
      \<lparr>l_events = ''cxttap'', l_selector = None, l_handler = BlockCxtTapCanvas\<rparr>,
      \<lparr>l_events = ''grab'', l_selector = Some ''node'', l_handler = BlockGrab\<rparr>]"

definition setGrabbable :: "bool \<Rightarrow> element list \<Rightarrow> element list" where
  "setGrabbable b els = map (\<lambda>e. if isNode e then e\<lparr>el_grabbable := b\<rparr> else e) els"

definition applyEditingRestrictions :: "controller \<Rightarrow> controller" where
  "applyEditingRestrictions s =
     (if \<not> isEditingLocked s then s
      else
        (let s1 = s\<lparr>cy := setGrabbable False (cy s), ungrabifyCalls := Suc (ungrabifyCalls s)\<rparr>;
             s2 = s1\<lparr>eh := map_option (\<lambda>e. e\<lparr>eh_enabled := False\<rparr>) (eh s1)\<rparr>;
             s3 = disableEditingContextMenus s2;
             s4 = s3\<lparr>containerCursor := map_option (\<lambda>_. ''not-allowed'') (containerCursor s3)\<rparr>
         in s4\<lparr>cyListeners := cyListeners s4 @ restrictionListeners\<rparr>))"

text \<open>
  \<open>initializeContextMenu(mode)\<close> registers the menu of free-text nodes and, in edit
  mode, the menus of plain nodes, of groups and of edges.
\<close>

definition initializeContextMenu :: "bool \<Rightarrow> controller \<Rightarrow> controller" where
  "initializeContextMenu editMode s =
     s\<lparr>cxtmenus := cxtmenus s @ [FreeTextMenu] @
         (if editMode then [NodeMenu, GroupMenu, EdgeMenu] else [])\<rparr>"

definition removeEditingRestrictions :: "controller \<Rightarrow> controller" where
  "removeEditingRestrictions s =
     (let s1 = s\<lparr>cy := setGrabbable True (cy s)\<rparr>;
          s2 = s1\<lparr>eh := map_option (\<lambda>e. e\<lparr>eh_enabled := True\<rparr>) (eh s1)\<rparr>;
          s3 = s2\<lparr>containerCursor := map_option (\<lambda>_. []) (containerCursor s2)\<rparr>
      in initializeContextMenu True s3)"

text \<open>The handler of the message \<open>deployment-state-changed\<close>, carrying \<open>isLabDeployed\<close>.\<close>

definition onDeploymentStateChanged :: "controller \<Rightarrow> bool \<Rightarrow> controller" where
  "onDeploymentStateChanged s isLabDeployed =
     (let s1 = s\<lparr>window_isLabDeployed := Some isLabDeployed\<rparr>;
          wasLocked = isEditingLocked s1;
          s2 = checkDeploymentState s1;
          s3 = (if isEditingLocked s2 \<and> \<not> wasLocked then applyEditingRestrictions s2
                else if \<not> isEditingLocked s2 \<and> wasLocked then removeEditingRestrictions s2
                else s2)
      in s3\<lparr>fabDeployedAttr :=
             map_option (\<lambda>_. if isLabDeployed then ''true'' else ''false'') (fabDeployedAttr s3)\<rparr>)"

section \<open>Saves and the event loop\<close>

text \<open>
  \<open>autoSaveCallback\<close> is the function passed to \<open>debounce\<close>, run when the timer fires:
  it returns at once while an edge is being drawn or editing is blocked, and calls
  \<open>saveManager.viewportButtonsSaveTopo\<close> otherwise. \<open>viewportButtonsSaveTopo\<close> is the
  global \<open>window.viewportButtonsSaveTopo\<close> of the Save button, which calls the same
  method of the same save manager, unconditionally.
\<close>

definition startSave :: "controller \<Rightarrow> controller" where
  "startSave s = s\<lparr>saveStarted := clock s # saveStarted s, saveInFlight := Suc (saveInFlight s)\<rparr>"

definition autoSaveCallback :: "controller \<Rightarrow> controller" where
  "autoSaveCallback s =
     (if isEdgeHandlerActive s \<or> isEditingBlocked s then s
      else startSave s)"

definition viewportButtonsSaveTopo :: "controller \<Rightarrow> controller" where
  "viewportButtonsSaveTopo s = startSave s"

text \<open>
  Time. \<open>elapse d\<close> lets \<open>d\<close> milliseconds pass; a pending timer whose time comes no
  later than the new time fires at its time. \<open>saveResponse\<close> is the arrival of the answer
  to a save request. A run of the event loop is a list of events, each handled to
  completion in the order of the list; \<open>Cy ev\<close> is a graph event delivered to the listeners
  of \<open>setupAutoSave\<close>, \<open>SaveButton\<close> a click on the Save button.
\<close>

definition elapse :: "controller \<Rightarrow> nat \<Rightarrow> controller" where
  "elapse s d =
     (case timeout s of
        None \<Rightarrow> s\<lparr>clock := clock s + d\<rparr>
      | Some t \<Rightarrow>
          if t \<le> clock s + d
          then (autoSaveCallback (s\<lparr>clock := max t (clock s), timeout := None\<rparr>))
                 \<lparr>clock := clock s + d\<rparr>
          else s\<lparr>clock := clock s + d\<rparr>)"

definition saveResponse :: "controller \<Rightarrow> controller" where
  "saveResponse s = s\<lparr>saveInFlight := saveInFlight s - 1\<rparr>"

datatype event =
    Cy cyEvent | Elapse nat | SaveResponse | SaveButton | DeploymentStateChanged bool
  | EhStart | EhStop | EhCancel

definition step :: "controller \<Rightarrow> event \<Rightarrow> controller" where
  "step s e =
     (case e of
        Cy ev \<Rightarrow> onCyEvent s ev
      | Elapse d \<Rightarrow> elapse s d
      | SaveResponse \<Rightarrow> saveResponse s
      | SaveButton \<Rightarrow> viewportButtonsSaveTopo s
      | DeploymentStateChanged b \<Rightarrow> onDeploymentStateChanged s b
      | EhStart \<Rightarrow> s\<lparr>isEdgeHandlerActive := True\<rparr>
      | EhStop \<Rightarrow> s\<lparr>isEdgeHandlerActive := False\<rparr>
      | EhCancel \<Rightarrow> s\<lparr>isEdgeHandlerActive := False\<rparr>)"

definition run :: "controller \<Rightarrow> event list \<Rightarrow> controller" where
  "run s es = foldl step s es"

section \<open>Clicks and the Delete Node command\<close>

record mouseEvent =
  ctrlKey :: bool
  shiftKey :: bool
  altKey :: bool

text \<open>\<open>onNodeClick\<close> of edit mode; \<open>node\<close> is \<open>event.target\<close>.\<close>

definition onNodeClick :: "controller \<Rightarrow> mouseEvent \<Rightarrow> element \<Rightarrow> controller" where
  "onNodeClick s0 originalEvent node =
     (let s = s0\<lparr>nodeClicked := True\<rparr>;
          isNodeInEditMode = (data_get node ''editor'' = Some (Str ''true''))
      in if ctrlKey originalEvent \<and> isChild (cy s) node
           then s\<lparr>cy := moveToNoParent (cy s) (idOf node)\<rparr>
         else if shiftKey originalEvent \<and>
                 data_get node ''topoViewerRole'' \<noteq> Some (Str ''freeText'')
           then s\<lparr>isEdgeHandlerActive := True,
                  eh := map_option (\<lambda>e. e\<lparr>eh_startCalls := idOf node # eh_startCalls e\<rparr>) (eh s)\<rparr>
         else if altKey originalEvent \<and> isNodeInEditMode
           then s\<lparr>cy := removeElement (cy s) (idOf node)\<rparr>
         else s)"

text \<open>The command Delete Node of the context menu of plain nodes.\<close>

definition deleteNodeCommand :: "controller \<Rightarrow> element \<Rightarrow> controller" where
  "deleteNodeCommand s ele =
     (if \<not> isNode ele then s
      else
        (let parent = parentOf (cy s) ele;
             cy1 = removeElement (cy s) (idOf ele)
         in case parent of
              None \<Rightarrow> s\<lparr>cy := cy1\<rparr>
            | Some p \<Rightarrow>
                if children cy1 p = [] then s\<lparr>cy := removeElement cy1 (idOf p)\<rparr>
                else s\<lparr>cy := cy1\<rparr>))"

section \<open>Example states\<close>

text \<open>
  The controller as its field initialisers leave it, with an empty graph, and two small
  topologies used to run the definitions on concrete inputs.
\<close>

definition newController :: controller where
  "newController =
     \<lparr>cy = [], cyListeners = [], cxtmenus = [], private_cxtmenu = None,
      containerCursor = Some [],
      eh = None, isEdgeHandlerActive = False, isViewportDrawerClabEditorChecked = True,
      isEditingLocked = False, interfaceCounters = [], nodeClicked = False,
      window_isLabDeployed = None, window_ifacePatternMapping = None,
      fabDeployedAttr = None, timeout = None, clock = 0, saveStarted = [],
      saveInFlight = 0, ungrabifyCalls = 0\<rparr>"

definition mkNode :: "string \<Rightarrow> (string \<times> jsval) list \<Rightarrow> element" where
  "mkNode i extra =
     \<lparr>el_group = Nodes, el_data = (''id'', Str i) # extra, el_classes = [],
      el_grabbable = True\<rparr>"

definition mkEdge :: "string \<Rightarrow> string \<Rightarrow> string \<Rightarrow> (string \<times> jsval) list \<Rightarrow> element" where
  "mkEdge i src tgt extra =
     \<lparr>el_group = Edges,
      el_data = (''id'', Str i) # (''source'', Str src) # (''target'', Str tgt) # extra,
      el_classes = [], el_grabbable = True\<rparr>"

text \<open>
  Node \<open>r1\<close> uses \<open>eth1\<close> and \<open>eth4\<close> as a source and \<open>eth3\<close> as a target; \<open>r3\<close> has no
  edge.
\<close>

definition exampleLinks :: controller where
  "exampleLinks = newController
     \<lparr>cy :=
        [mkNode ''r1'' [], mkNode ''r2'' [], mkNode ''r3'' [],
         mkEdge ''r1-r2'' ''r1'' ''r2''
           [(''sourceEndpoint'', Str ''eth1''), (''targetEndpoint'', Str ''eth7'')],
         mkEdge ''r2-r1'' ''r2'' ''r1''
           [(''sourceEndpoint'', Str ''eth2''), (''targetEndpoint'', Str ''eth3'')],
         mkEdge ''r1-r2b'' ''r1'' ''r2''
           [(''sourceEndpoint'', Str ''eth4''), (''targetEndpoint'', Str ''eth5'')]]\<rparr>"

text \<open>
  A group \<open>g1\<close> with the single child \<open>n1\<close> (drawn in the editor), a free-text
  annotation \<open>t1\<close>, a plain node \<open>r2\<close> and a link between \<open>n1\<close> and \<open>r2\<close>, in edit mode.
\<close>

definition node_g1 :: element where
  "node_g1 = mkNode ''g1'' [(''topoViewerRole'', Str ''group'')]"

definition node_n1 :: element where
  "node_n1 = mkNode ''n1'' [(''parent'', Str ''g1''), (''editor'', Str ''true''),
                            (''topoViewerRole'', Str ''pe'')]"

definition node_t1 :: element where
  "node_t1 = mkNode ''t1'' [(''topoViewerRole'', Str ''freeText'')]"

definition node_r2 :: element where
  "node_r2 = mkNode ''r2'' [(''topoViewerRole'', Str ''pe'')]"

definition edge_n1_r2 :: element where
  "edge_n1_r2 = mkEdge ''n1-r2'' ''n1'' ''r2''
     [(''sourceEndpoint'', Str ''eth1''), (''targetEndpoint'', Str ''eth1'')]"

definition exampleGroup :: controller where
  "exampleGroup = newController
     \<lparr>cy := [node_g1, node_n1, node_t1, node_r2, edge_n1_r2],
      eh := Some \<lparr>eh_enabled = True, eh_startCalls = []\<rparr>\<rparr>"

text \<open>
  The topology \<open>exampleLinks\<close> after edgehandles has added an edge from \<open>r1\<close> to \<open>r3\<close>
  that carries no endpoint yet (the moment at which \<open>ehcomplete\<close> is handled), with some
  interface counters of the session.
\<close>

definition edge_r1_r3 :: element where
  "edge_r1_r3 = mkEdge ''r1-r3'' ''r1'' ''r3'' []"

definition exampleDrawn :: controller where
  "exampleDrawn = exampleLinks
     \<lparr>cy := cy exampleLinks @ [edge_r1_r3],
      interfaceCounters := [(''r1'', 7), (''r3'', 1)]\<rparr>"

text \<open>
  An \<open>updateTopology\<close> payload for \<open>exampleLinks\<close>: a patch of the existing node \<open>r1\<close>,
  a \<open>null\<close> entry, a patch without an id, and a patch of the unknown id \<open>r9\<close>.
\<close>

definition patch_r1 :: patch where
  "patch_r1 = \<lparr>p_group = None,
                p_data = Some [(''id'', Str ''r1''), (''name'', Str ''core'')],
                p_classes = Some ''spine up''\<rparr>"

definition patch_noid :: patch where
  "patch_noid = \<lparr>p_group = None, p_data = Some [(''name'', Str ''lost'')],
                  p_classes = Some ''x''\<rparr>"

definition patch_r9 :: patch where
  "patch_r9 = \<lparr>p_group = None, p_data = Some [(''id'', Str ''r9'')], p_classes = None\<rparr>"

definition examplePayload :: "patch option list" where
  "examplePayload = [Some patch_r1, None, Some patch_noid, Some patch_r9]"

text \<open>The controller of \<open>exampleGroup\<close> after the lab has been deployed.\<close>

definition exampleLocked :: controller where
  "exampleLocked = onDeploymentStateChanged exampleGroup True"

text \<open>
  A topology with a pattern mapping: \<open>s1\<close> and \<open>s2\<close> are of kind \<open>nokia_srlinux\<close>
  (pattern \<open>e1-{n}\<close>), \<open>x1\<close> of kind \<open>cisco_xrd\<close> (pattern \<open>Gi0-0-0-{n}\<close>) and \<open>h1\<close> of
  kind \<open>linux\<close>, which the mapping does not list. \<open>s1\<close> uses \<open>e1-1\<close>, \<open>e1-3\<close> and
  \<open>e1-4\<close>, and is the target of a link whose endpoint \<open>eth2\<close> is not of its pattern.
\<close>

definition kindNode :: "string \<Rightarrow> string \<Rightarrow> element" where
  "kindNode i k = mkNode i [(''extraData'', Obj [(''kind'', k)])]"

definition exampleKinds :: controller where
  "exampleKinds = newController
     \<lparr>cy :=
        [kindNode ''s1'' ''nokia_srlinux'', kindNode ''s2'' ''nokia_srlinux'',
         kindNode ''x1'' ''cisco_xrd'', kindNode ''h1'' ''linux'',
         mkEdge ''s1-s2'' ''s1'' ''s2''
           [(''sourceEndpoint'', Str ''e1-1''), (''targetEndpoint'', Str ''e1-1'')],
         mkEdge ''s2-s1'' ''s2'' ''s1''
           [(''sourceEndpoint'', Str ''e1-2''), (''targetEndpoint'', Str ''e1-3'')],
         mkEdge ''s1-x1'' ''s1'' ''x1''
           [(''sourceEndpoint'', Str ''e1-4''), (''targetEndpoint'', Str ''Gi0-0-0-1'')],
         mkEdge ''h1-s1'' ''h1'' ''s1''
           [(''sourceEndpoint'', Str ''eth1''), (''targetEndpoint'', Str ''eth2'')]],
      window_ifacePatternMapping :=
        Some [(''nokia_srlinux'', ''e1-{n}''), (''cisco_xrd'', ''Gi0-0-0-{n}'')]\<rparr>"

text \<open>
  Patches for \<open>exampleLinks\<close> with unknown ids: an edge \<open>r1-r9\<close> whose target \<open>r9\<close> is
  not in the graph, and an edge between the existing nodes \<open>r2\<close> and \<open>r3\<close>.
\<close>

definition patch_dangling :: patch where
  "patch_dangling =
     \<lparr>p_group = None,
      p_data = Some [(''id'', Str ''r1-r9''), (''source'', Str ''r1''), (''target'', Str ''r9'')],
      p_classes = None\<rparr>"

definition patch_r2_r3 :: patch where
  "patch_r2_r3 =
     \<lparr>p_group = None,
      p_data = Some [(''id'', Str ''r2-r3''), (''source'', Str ''r2''), (''target'', Str ''r3'')],
      p_classes = Some ''link up link''\<rparr>"

text \<open>The controller of \<open>exampleGroup\<close> after \<open>setupAutoSave\<close>, as edit mode sets it up.\<close>

definition exampleEditing :: controller where
  "exampleEditing = setupAutoSave exampleGroup"

section \<open>Properties of the endpoint allocator\<close>










subsection \<open>What the regular expression of a pattern matches\<close>
















subsection \<open>The allocated number\<close>


lemmas example_defs =
  exampleLinks_def newController_def mkNode_def mkEdge_def exampleGroup_def
  node_g1_def node_n1_def node_t1_def node_r2_def edge_n1_r2_def
  exampleDrawn_def edge_r1_r3_def patch_r1_def patch_noid_def patch_r9_def
  examplePayload_def exampleKinds_def kindNode_def patch_dangling_def patch_r2_r3_def

lemmas allocator_defs =
  usedNumbers_def nodeKind_def kindOf_def ifacePattern_def patternRegex_def incidentEdges_def
  endpointNumber_def getElementById_def el_id_def data_get_def isEdge_def isNode_def
  escapeRegExp_def regex_special_def backslash_def digits_group_def newRegExp_def
  js_match_def parseInt_def is_digit_def digit_val_def


section \<open>Properties of the edge-draw subsystem\<close>

lemmas graph_defs =
  isParent_def isChild_def children_def parentOf_def same_def idOf_def el_id_def
  data_get_def isNode_def isEdge_def getElementById_def

text \<open>
  C2. \<open>canConnect\<close> permits a connection exactly when neither node has the role
  \<open>freeText\<close>, the two nodes are not the same element, neither node is a parent (a node
  is a parent when some node of the graph names it as its parent), and the target's role
  is not \<open>dummyChild\<close>. In particular a connection from a parent, from or to a free-text
  node, or from a node to itself is rejected.
\<close>

theorem canConnect_iff:
  "(canConnect els sourceNode targetNode \<longleftrightarrow>
      data_get sourceNode ''topoViewerRole'' \<noteq> Some (Str ''freeText'') \<and>
      data_get targetNode ''topoViewerRole'' \<noteq> Some (Str ''freeText'') \<and>
      el_id sourceNode \<noteq> el_id targetNode \<and>
      \<not> isParent els sourceNode \<and>
      \<not> isParent els targetNode \<and>
      data_get targetNode ''topoViewerRole'' \<noteq> Some (Str ''dummyChild'')) \<and>
   (isParent els n \<longleftrightarrow>
      isNode n \<and> (\<exists>m. m \<in> set els \<and> isNode m \<and> data_get m ''parent'' = Some (Str (idOf n)))) \<and>
   (isParent els sourceNode \<longrightarrow> \<not> canConnect els sourceNode targetNode) \<and>
   (data_get sourceNode ''topoViewerRole'' = Some (Str ''freeText'') \<longrightarrow>
      \<not> canConnect els sourceNode targetNode) \<and>
   (data_get targetNode ''topoViewerRole'' = Some (Str ''freeText'') \<longrightarrow>
      \<not> canConnect els sourceNode targetNode) \<and>
   \<not> canConnect els n n"
proof -
  have "isParent els n \<longleftrightarrow>
      isNode n \<and> (\<exists>m. m \<in> set els \<and> isNode m \<and> data_get m ''parent'' = Some (Str (idOf n)))"
    by (auto simp: isParent_def children_def filter_empty_conv)
  moreover have "canConnect els sourceNode targetNode \<longleftrightarrow>
      data_get sourceNode ''topoViewerRole'' \<noteq> Some (Str ''freeText'') \<and>
      data_get targetNode ''topoViewerRole'' \<noteq> Some (Str ''freeText'') \<and>
      el_id sourceNode \<noteq> el_id targetNode \<and>
      \<not> isParent els sourceNode \<and>
      \<not> isParent els targetNode \<and>
      data_get targetNode ''topoViewerRole'' \<noteq> Some (Str ''dummyChild'')"
    by (simp add: canConnect_def same_def Let_def)
  moreover have "\<not> canConnect els n n"
    by (simp add: canConnect_def same_def Let_def)
  ultimately show ?thesis by blast
qed

theorem canConnect_iff_witness:
  "canConnect (cy exampleGroup) node_n1 node_r2 \<and>
   isParent (cy exampleGroup) node_g1 \<and>
   \<not> canConnect (cy exampleGroup) node_g1 node_r2 \<and>
   \<not> canConnect (cy exampleGroup) node_t1 node_r2 \<and>
   \<not> canConnect (cy exampleGroup) node_r2 node_t1 \<and>
   \<not> canConnect (cy exampleGroup) node_r2 node_r2"
proof -
  have p: "isParent (cy exampleGroup) node_g1"
    by (simp add: example_defs graph_defs)
  have np: "\<not> isParent (cy exampleGroup) node_n1" "\<not> isParent (cy exampleGroup) node_r2"
    by (simp_all add: example_defs graph_defs)
  have t: "data_get node_t1 ''topoViewerRole'' = Some (Str ''freeText'')"
    by (simp add: example_defs graph_defs)
  have r: "data_get node_n1 ''topoViewerRole'' \<noteq> Some (Str ''freeText'')"
    "data_get node_r2 ''topoViewerRole'' \<noteq> Some (Str ''freeText'')"
    "data_get node_r2 ''topoViewerRole'' \<noteq> Some (Str ''dummyChild'')"
    "el_id node_n1 \<noteq> el_id node_r2"
    by (simp_all add: example_defs graph_defs)
  from canConnect_iff [of "cy exampleGroup" node_n1 node_r2] np r
  have "canConnect (cy exampleGroup) node_n1 node_r2" by blast
  moreover from canConnect_iff [of "cy exampleGroup" node_g1 node_r2] p
  have "\<not> canConnect (cy exampleGroup) node_g1 node_r2" by blast
  moreover from canConnect_iff [of "cy exampleGroup" node_t1 node_r2] t
  have "\<not> canConnect (cy exampleGroup) node_t1 node_r2" by blast
  moreover from canConnect_iff [of "cy exampleGroup" node_r2 node_t1] t
  have "\<not> canConnect (cy exampleGroup) node_r2 node_t1" by blast
  moreover from canConnect_iff [of "cy exampleGroup" _ _ node_r2]
  have "\<not> canConnect (cy exampleGroup) node_r2 node_r2" by blast
  ultimately show ?thesis using p by simp
qed

section \<open>Properties of the deployment lock\<close>

lemmas lock_defs =
  onDeploymentStateChanged_def checkDeploymentState_def applyEditingRestrictions_def
  removeEditingRestrictions_def disableEditingContextMenus_def initializeContextMenu_def
  emitData_def onCyEvent_def autoSave_def

lemma onDeploymentStateChanged_same:
  "onDeploymentStateChanged s (isEditingLocked s) =
     s\<lparr>window_isLabDeployed := Some (isEditingLocked s),
       fabDeployedAttr :=
         map_option (\<lambda>_. if isEditingLocked s then ''true'' else ''false'') (fabDeployedAttr s)\<rparr>"
  by (cases "isEditingLocked s") (simp_all add: onDeploymentStateChanged_def checkDeploymentState_def)

lemma onDeploymentStateChanged_locks:
  "isEditingLocked (onDeploymentStateChanged s True)"
  by (simp add: lock_defs Let_def)

lemma onDeploymentStateChanged_lock_effects:
  "\<not> isEditingLocked s \<Longrightarrow>
     ungrabifyCalls (onDeploymentStateChanged s True) = Suc (ungrabifyCalls s) \<and>
     cyListeners (onDeploymentStateChanged s True) = cyListeners s @ restrictionListeners \<and>
     (\<forall>e \<in> set (cy (onDeploymentStateChanged s True)). isNode e \<longrightarrow> \<not> el_grabbable e) \<and>
     eh (onDeploymentStateChanged s True) = map_option (\<lambda>e. e\<lparr>eh_enabled := False\<rparr>) (eh s)"
  by (auto simp: lock_defs Let_def setGrabbable_def isNode_def)

lemma onDeploymentStateChanged_no_lock_effects:
  "isEditingLocked s \<or> \<not> b \<Longrightarrow>
     ungrabifyCalls (onDeploymentStateChanged s b) = ungrabifyCalls s \<and>
     cyListeners (onDeploymentStateChanged s b) = cyListeners s"
  by (cases b; cases "isEditingLocked s") (simp_all add: lock_defs Let_def)

text \<open>
  C4. A \<open>deployment-state-changed\<close> message whose boolean equals the current lock flag
  changes nothing but the global \<open>window.isLabDeployed\<close> and the attribute of the
  floating action button, which are set to that same boolean. The lock side effects
  (ungrabify, the four interceptor listeners) happen only when an unlocked controller
  receives \<open>true\<close>. Hence delivering \<open>true\<close> twice gives the same state as delivering it
  once, with one call of ungrabify and one copy of the listeners.
\<close>

theorem deployment_lock_idempotent:
  "onDeploymentStateChanged s (isEditingLocked s) =
     s\<lparr>window_isLabDeployed := Some (isEditingLocked s),
       fabDeployedAttr :=
         map_option (\<lambda>_. if isEditingLocked s then ''true'' else ''false'') (fabDeployedAttr s)\<rparr> \<and>
   (isEditingLocked s \<or> \<not> b \<longrightarrow>
      ungrabifyCalls (onDeploymentStateChanged s b) = ungrabifyCalls s \<and>
      cyListeners (onDeploymentStateChanged s b) = cyListeners s) \<and>
   onDeploymentStateChanged (onDeploymentStateChanged s True) True =
     onDeploymentStateChanged s True \<and>
   (\<not> isEditingLocked s \<longrightarrow>
      ungrabifyCalls (onDeploymentStateChanged (onDeploymentStateChanged s True) True) =
        Suc (ungrabifyCalls s) \<and>
      cyListeners (onDeploymentStateChanged (onDeploymentStateChanged s True) True) =
        cyListeners s @ restrictionListeners)"
proof (intro conjI impI)
  show "onDeploymentStateChanged s (isEditingLocked s) =
     s\<lparr>window_isLabDeployed := Some (isEditingLocked s),
       fabDeployedAttr :=
         map_option (\<lambda>_. if isEditingLocked s then ''true'' else ''false'') (fabDeployedAttr s)\<rparr>"
    by (rule onDeploymentStateChanged_same)
next
  assume "isEditingLocked s \<or> \<not> b"
  then show "ungrabifyCalls (onDeploymentStateChanged s b) = ungrabifyCalls s"
    "cyListeners (onDeploymentStateChanged s b) = cyListeners s"
    using onDeploymentStateChanged_no_lock_effects by blast+
next
  let ?s1 = "onDeploymentStateChanged s True"
  have l: "isEditingLocked ?s1" by (rule onDeploymentStateChanged_locks)
  have w: "window_isLabDeployed ?s1 = Some True"
    by (cases "isEditingLocked s") (simp_all add: lock_defs Let_def)
  have f: "map_option (\<lambda>_. ''true'') (fabDeployedAttr ?s1) = fabDeployedAttr ?s1"
    by (cases "isEditingLocked s"; cases "fabDeployedAttr s") (simp_all add: lock_defs Let_def)
  have "onDeploymentStateChanged ?s1 True =
      ?s1\<lparr>window_isLabDeployed := Some True,
          fabDeployedAttr := map_option (\<lambda>_. ''true'') (fabDeployedAttr ?s1)\<rparr>"
    using onDeploymentStateChanged_same [of ?s1] l by simp
  also have "\<dots> = ?s1" using w f by simp
  finally show idem: "onDeploymentStateChanged ?s1 True = ?s1" .
  assume u: "\<not> isEditingLocked s"
  from u show "ungrabifyCalls (onDeploymentStateChanged ?s1 True) = Suc (ungrabifyCalls s)"
    unfolding idem using onDeploymentStateChanged_lock_effects by blast
  from u show "cyListeners (onDeploymentStateChanged ?s1 True) = cyListeners s @ restrictionListeners"
    unfolding idem using onDeploymentStateChanged_lock_effects by blast
qed

theorem deployment_lock_idempotent_witness:
  "\<not> isEditingLocked exampleGroup \<and>
   ungrabifyCalls (onDeploymentStateChanged (onDeploymentStateChanged exampleGroup True) True) = 1 \<and>
   cyListeners (onDeploymentStateChanged (onDeploymentStateChanged exampleGroup True) True) =
     restrictionListeners \<and>
   isEditingLocked (onDeploymentStateChanged exampleGroup True) \<and>
   cyListeners (onDeploymentStateChanged (onDeploymentStateChanged exampleGroup True) False) =
     restrictionListeners"
proof -
  have u: "\<not> isEditingLocked exampleGroup" by (simp add: example_defs)
  have c: "ungrabifyCalls exampleGroup = 0" "cyListeners exampleGroup = []"
    by (simp_all add: example_defs)
  have l: "isEditingLocked (onDeploymentStateChanged exampleGroup True)"
    by (rule onDeploymentStateChanged_locks)
  from deployment_lock_idempotent [of exampleGroup] u
  have "ungrabifyCalls (onDeploymentStateChanged (onDeploymentStateChanged exampleGroup True) True) =
      Suc (ungrabifyCalls exampleGroup)"
    "cyListeners (onDeploymentStateChanged (onDeploymentStateChanged exampleGroup True) True) =
      cyListeners exampleGroup @ restrictionListeners"
    by blast+
  with c
  have a: "ungrabifyCalls (onDeploymentStateChanged (onDeploymentStateChanged exampleGroup True) True) = 1"
    "cyListeners (onDeploymentStateChanged (onDeploymentStateChanged exampleGroup True) True) =
     restrictionListeners"
    by simp_all
  have b: "cyListeners (onDeploymentStateChanged exampleGroup True) = restrictionListeners"
    using onDeploymentStateChanged_lock_effects [OF u] c by simp
  from deployment_lock_idempotent [of "onDeploymentStateChanged exampleGroup True" False] l
  have "cyListeners (onDeploymentStateChanged (onDeploymentStateChanged exampleGroup True) False) =
     cyListeners (onDeploymentStateChanged exampleGroup True)" by blast
  with b have "cyListeners (onDeploymentStateChanged (onDeploymentStateChanged exampleGroup True) False) =
     restrictionListeners" by simp
  with a u l show ?thesis by simp
qed

text \<open>
  C10. \<open>removeEditingRestrictions\<close> leaves the registered listeners as they are. On the
  transition from locked to unlocked the nodes become grabbable, edgehandles is enabled,
  the cursor is reset and the four menus of edit mode are registered again, while every
  listener stays registered; so after locking and unlocking, the four interceptors that
  \<open>applyEditingRestrictions\<close> added are still registered.
\<close>

theorem unlock_keeps_interceptors:
  "cyListeners (removeEditingRestrictions s) = cyListeners s \<and>
   (isEditingLocked s \<longrightarrow>
      \<not> isEditingLocked (onDeploymentStateChanged s False) \<and>
      cyListeners (onDeploymentStateChanged s False) = cyListeners s \<and>
      (\<forall>e \<in> set (cy (onDeploymentStateChanged s False)). isNode e \<longrightarrow> el_grabbable e) \<and>
      eh (onDeploymentStateChanged s False) = map_option (\<lambda>e. e\<lparr>eh_enabled := True\<rparr>) (eh s) \<and>
      containerCursor (onDeploymentStateChanged s False) =
        map_option (\<lambda>_. []) (containerCursor s) \<and>
      cxtmenus (onDeploymentStateChanged s False) =
        cxtmenus s @ [FreeTextMenu, NodeMenu, GroupMenu, EdgeMenu]) \<and>
   (\<not> isEditingLocked s \<longrightarrow>
      cyListeners (onDeploymentStateChanged (onDeploymentStateChanged s True) False) =
        cyListeners s @ restrictionListeners \<and>
      set restrictionListeners \<subseteq>
        set (cyListeners (onDeploymentStateChanged (onDeploymentStateChanged s True) False)))"
proof (intro conjI impI)
  show "cyListeners (removeEditingRestrictions s) = cyListeners s"
    by (simp add: lock_defs Let_def)
next
  assume l: "isEditingLocked s"
  then show "\<not> isEditingLocked (onDeploymentStateChanged s False)"
    "cyListeners (onDeploymentStateChanged s False) = cyListeners s"
    "eh (onDeploymentStateChanged s False) = map_option (\<lambda>e. e\<lparr>eh_enabled := True\<rparr>) (eh s)"
    "containerCursor (onDeploymentStateChanged s False) = map_option (\<lambda>_. []) (containerCursor s)"
    "cxtmenus (onDeploymentStateChanged s False) =
        cxtmenus s @ [FreeTextMenu, NodeMenu, GroupMenu, EdgeMenu]"
    by (simp_all add: lock_defs Let_def)
  from l show "\<forall>e \<in> set (cy (onDeploymentStateChanged s False)). isNode e \<longrightarrow> el_grabbable e"
    by (auto simp: lock_defs Let_def setGrabbable_def isNode_def)
next
  assume u: "\<not> isEditingLocked s"
  let ?s1 = "onDeploymentStateChanged s True"
  have l: "isEditingLocked ?s1" by (rule onDeploymentStateChanged_locks)
  then have "cyListeners (onDeploymentStateChanged ?s1 False) = cyListeners ?s1"
    using onDeploymentStateChanged_no_lock_effects by blast
  also have "\<dots> = cyListeners s @ restrictionListeners"
    using u onDeploymentStateChanged_lock_effects by blast
  finally show a: "cyListeners (onDeploymentStateChanged ?s1 False) =
      cyListeners s @ restrictionListeners" .
  show "set restrictionListeners \<subseteq> set (cyListeners (onDeploymentStateChanged ?s1 False))"
    unfolding a by simp
qed

theorem unlock_keeps_interceptors_witness:
  "isEditingLocked (onDeploymentStateChanged exampleGroup True) \<and>
   \<not> isEditingLocked (onDeploymentStateChanged (onDeploymentStateChanged exampleGroup True) False) \<and>
   cyListeners (onDeploymentStateChanged (onDeploymentStateChanged exampleGroup True) False) =
     restrictionListeners \<and>
   cxtmenus (onDeploymentStateChanged (onDeploymentStateChanged exampleGroup True) False) =
     [FreeTextMenu, NodeMenu, GroupMenu, EdgeMenu]"
proof -
  have u: "\<not> isEditingLocked exampleGroup" by (simp add: example_defs)
  have c: "cyListeners exampleGroup = []" by (simp add: example_defs)
  have l: "isEditingLocked (onDeploymentStateChanged exampleGroup True)"
    by (rule onDeploymentStateChanged_locks)
  have m: "cxtmenus (onDeploymentStateChanged exampleGroup True) = []"
    by (simp add: example_defs lock_defs Let_def)
  from unlock_keeps_interceptors [of exampleGroup] u c
  have a: "cyListeners (onDeploymentStateChanged (onDeploymentStateChanged exampleGroup True) False) =
     restrictionListeners" by simp
  from unlock_keeps_interceptors [of "onDeploymentStateChanged exampleGroup True"] l m
  have "\<not> isEditingLocked (onDeploymentStateChanged (onDeploymentStateChanged exampleGroup True) False)"
    "cxtmenus (onDeploymentStateChanged (onDeploymentStateChanged exampleGroup True) False) =
     [FreeTextMenu, NodeMenu, GroupMenu, EdgeMenu]" by simp_all
  with a l show ?thesis by simp
qed

text \<open>
  Locking restarts the autosave timer of a controller in edit mode: the data entries
  that \<open>disableEditingContextMenus\<close> removes are graph events like any other.
\<close>

lemma cy_setGrabbable_Nil: "setGrabbable b els = [] \<longleftrightarrow> els = []"
  by (simp add: setGrabbable_def)

lemma lock_restarts_autosave_timer:
  assumes "\<not> isEditingLocked s" "cy s \<noteq> []" "listensFor s ''data''"
  shows "timeout (onDeploymentStateChanged s True) = Some (clock s + wait)"
  using assms
  by (simp add: lock_defs Let_def listensFor_def cy_setGrabbable_Nil)

lemma lock_restarts_autosave_timer_example:
  "timeout exampleEditing = None \<and> timeout (onDeploymentStateChanged exampleEditing True) = Some 500"
proof -
  have "\<not> isEditingLocked exampleEditing" "cy exampleEditing \<noteq> []"
    "listensFor exampleEditing ''data''" "clock exampleEditing + wait = 500"
    "timeout exampleEditing = None"
    by (simp_all add: exampleEditing_def setupAutoSave_def autoSaveListeners_def listensFor_def
        splitWords_def is_space_def wait_def example_defs)
  then show ?thesis using lock_restarts_autosave_timer [of exampleEditing] by simp
qed

section \<open>Properties of the element store\<close>

lemma map_of_obj_set: "map_of (obj_set k v d) = (map_of d)(k \<mapsto> v)"
  by (induction k v d rule: obj_set.induct) auto

lemma data_assign_Nil: "data_assign d [] = d"
  by (simp add: data_assign_def)

lemma data_assign_Cons:
  "data_assign d (kv # obj) =
     data_assign (if immutableKey (fst kv) then d else obj_set (fst kv) (snd kv) d) obj"
  by (simp add: data_assign_def)

lemma data_assign_immutable:
  "immutableKey k \<Longrightarrow> map_of (data_assign d obj) k = map_of d k"
proof (induction obj arbitrary: d)
  case Nil
  then show ?case by (simp add: data_assign_Nil)
next
  case (Cons kv obj)
  then show ?case by (auto simp: data_assign_Cons map_of_obj_set)
qed

lemma el_id_data_assign: "el_id (e\<lparr>el_data := data_assign (el_data e) obj\<rparr>) = el_id e"
  by (simp add: el_id_def data_get_def data_assign_immutable immutableKey_def)

lemma getElementById_updateElement:
  assumes "\<And>e. el_id (f e) = el_id e"
  shows "getElementById (updateElement els i f) j =
           (if j = i then map_option f (getElementById els i) else getElementById els j)"
  using assms by (induction els) (auto simp: getElementById_def updateElement_def)

lemma map_el_id_updateElement:
  assumes "\<And>e. el_id (f e) = el_id e"
  shows "map el_id (updateElement els i f) = map el_id els"
  using assms by (induction els) (auto simp: updateElement_def)

section \<open>Independence of the interface counters\<close>

lemma getNextEndpoint_cong:
  "ifacePattern s (nodeKind s nodeId) = ifacePattern s' (nodeKind s' nodeId) \<Longrightarrow>
   incidentEdges s nodeId = incidentEdges s' nodeId \<Longrightarrow>
   getNextEndpoint s nodeId = getNextEndpoint s' nodeId"
  by (simp add: getNextEndpoint_def usedNumbers_def)

lemma getNextEndpoint_counters:
  "getNextEndpoint (s\<lparr>interfaceCounters := c\<rparr>) nodeId = getNextEndpoint s nodeId"
  by (rule getNextEndpoint_cong) (simp_all add: ifacePattern_def nodeKind_def incidentEdges_def)

lemma edgeParams_state:
  "snd (edgeParams s a b) =
     s\<lparr>interfaceCounters := interfaceCounters (snd (edgeParams s a b))\<rparr>"
  by (simp add: edgeParams_def Let_def)

lemma ehcomplete_stamps:
  assumes "getElementById (cy s) (idOf addedEdge) = Some e"
  shows "\<exists>e'. getElementById (cy (ehcomplete s a b addedEdge)) (idOf addedEdge) = Some e' \<and>
            data_get e' ''sourceEndpoint'' = Some (Str (getNextEndpoint s (idOf a))) \<and>
            data_get e' ''targetEndpoint'' = Some (Str (getNextEndpoint s (idOf b))) \<and>
            data_get e' ''editor'' = Some (Str ''true'')"
proof -
  let ?obj = "[(''sourceEndpoint'', Str (getNextEndpoint s (idOf a))),
               (''targetEndpoint'', Str (getNextEndpoint s (idOf b))),
               (''editor'', Str ''true'')]"
  let ?e' = "e\<lparr>el_data := data_assign (el_data e) ?obj\<rparr>"
  have "getElementById (cy (ehcomplete s a b addedEdge)) (idOf addedEdge) = Some ?e'"
    using assms
    by (simp add: ehcomplete_def Let_def getElementById_updateElement el_id_data_assign)
  moreover have "data_get ?e' ''sourceEndpoint'' = Some (Str (getNextEndpoint s (idOf a)))"
    "data_get ?e' ''targetEndpoint'' = Some (Str (getNextEndpoint s (idOf b)))"
    "data_get ?e' ''editor'' = Some (Str ''true'')"
    by (simp_all add: data_get_def data_assign_Cons data_assign_Nil immutableKey_def map_of_obj_set)
  ultimately show ?thesis by blast
qed

text \<open>
  C7. The result of \<open>getNextEndpoint\<close> is determined by the naming pattern of the node's
  kind and the edges incident to the node: two states that agree on these give the same
  result. In particular the map \<open>interfaceCounters\<close> has no influence, neither when it
  is replaced by any other map nor after \<open>edgeParams\<close> has counted in it. The handler of
  \<open>ehcomplete\<close> stamps on the added edge the allocator's results for the source and the
  target (and the provenance \<open>editor\<close>), so the graph it leaves does not depend on the
  counters either.
\<close>

theorem getNextEndpoint_ignores_counters:
  "(ifacePattern s (nodeKind s nodeId) = ifacePattern s' (nodeKind s' nodeId) \<and>
    incidentEdges s nodeId = incidentEdges s' nodeId \<longrightarrow>
      getNextEndpoint s nodeId = getNextEndpoint s' nodeId) \<and>
   getNextEndpoint (s\<lparr>interfaceCounters := c\<rparr>) nodeId = getNextEndpoint s nodeId \<and>
   getNextEndpoint (snd (edgeParams s a b)) nodeId = getNextEndpoint s nodeId \<and>
   (getElementById (cy s) (idOf addedEdge) = Some e \<longrightarrow>
      (\<exists>e'. getElementById (cy (ehcomplete s a b addedEdge)) (idOf addedEdge) = Some e' \<and>
            data_get e' ''sourceEndpoint'' = Some (Str (getNextEndpoint s (idOf a))) \<and>
            data_get e' ''targetEndpoint'' = Some (Str (getNextEndpoint s (idOf b))) \<and>
            data_get e' ''editor'' = Some (Str ''true''))) \<and>
   cy (ehcomplete (s\<lparr>interfaceCounters := c\<rparr>) a b addedEdge) = cy (ehcomplete s a b addedEdge)"
proof (intro conjI impI)
  assume "ifacePattern s (nodeKind s nodeId) = ifacePattern s' (nodeKind s' nodeId) \<and>
    incidentEdges s nodeId = incidentEdges s' nodeId"
  then show "getNextEndpoint s nodeId = getNextEndpoint s' nodeId"
    using getNextEndpoint_cong by blast
next
  show "getNextEndpoint (s\<lparr>interfaceCounters := c\<rparr>) nodeId = getNextEndpoint s nodeId"
    by (rule getNextEndpoint_counters)
next
  have "getNextEndpoint (snd (edgeParams s a b)) nodeId =
      getNextEndpoint (s\<lparr>interfaceCounters := interfaceCounters (snd (edgeParams s a b))\<rparr>) nodeId"
    using edgeParams_state [of s a b] by simp
  then show "getNextEndpoint (snd (edgeParams s a b)) nodeId = getNextEndpoint s nodeId"
    by (simp only: getNextEndpoint_counters)
next
  assume "getElementById (cy s) (idOf addedEdge) = Some e"
  then show "\<exists>e'. getElementById (cy (ehcomplete s a b addedEdge)) (idOf addedEdge) = Some e' \<and>
            data_get e' ''sourceEndpoint'' = Some (Str (getNextEndpoint s (idOf a))) \<and>
            data_get e' ''targetEndpoint'' = Some (Str (getNextEndpoint s (idOf b))) \<and>
            data_get e' ''editor'' = Some (Str ''true'')"
    by (rule ehcomplete_stamps)
next
  show "cy (ehcomplete (s\<lparr>interfaceCounters := c\<rparr>) a b addedEdge) = cy (ehcomplete s a b addedEdge)"
    by (simp add: ehcomplete_def Let_def getNextEndpoint_counters)
qed

theorem getNextEndpoint_ignores_counters_witness:
  "getElementById (cy exampleDrawn) (idOf edge_r1_r3) = Some edge_r1_r3 \<and>
   getNextEndpoint exampleDrawn ''r1'' = ''eth2'' \<and>
   getNextEndpoint exampleDrawn ''r3'' = ''eth1'' \<and>
   (\<exists>e'. getElementById (cy (ehcomplete exampleDrawn (mkNode ''r1'' []) (mkNode ''r3'' []) edge_r1_r3))
            ''r1-r3'' = Some e' \<and>
         data_get e' ''sourceEndpoint'' = Some (Str ''eth2'') \<and>
         data_get e' ''targetEndpoint'' = Some (Str ''eth1'') \<and>
         data_get e' ''editor'' = Some (Str ''true''))"
proof -
  have g: "getElementById (cy exampleDrawn) (idOf edge_r1_r3) = Some edge_r1_r3"
    by (simp add: example_defs getElementById_def el_id_def data_get_def idOf_def)
  have i: "idOf edge_r1_r3 = ''r1-r3''" "idOf (mkNode ''r1'' []) = ''r1''"
    "idOf (mkNode ''r3'' []) = ''r3''"
    by (simp_all add: example_defs el_id_def data_get_def idOf_def)
  have n: "getNextEndpoint exampleDrawn ''r1'' = ''eth2''"
    "getNextEndpoint exampleDrawn ''r3'' = ''eth1''"
    by (simp_all add: getNextEndpoint_def example_defs allocator_defs nextFree.simps toString.simps)
  from getNextEndpoint_ignores_counters
    [of exampleDrawn _ exampleDrawn _ "mkNode ''r1'' []" "mkNode ''r3'' []" edge_r1_r3 edge_r1_r3] g
  have "\<exists>e'. getElementById (cy (ehcomplete exampleDrawn (mkNode ''r1'' []) (mkNode ''r3'' []) edge_r1_r3))
            (idOf edge_r1_r3) = Some e' \<and>
         data_get e' ''sourceEndpoint'' = Some (Str (getNextEndpoint exampleDrawn (idOf (mkNode ''r1'' [])))) \<and>
         data_get e' ''targetEndpoint'' = Some (Str (getNextEndpoint exampleDrawn (idOf (mkNode ''r3'' [])))) \<and>
         data_get e' ''editor'' = Some (Str ''true'')"
    by blast
  then have "\<exists>e'. getElementById (cy (ehcomplete exampleDrawn (mkNode ''r1'' []) (mkNode ''r3'' []) edge_r1_r3))
            ''r1-r3'' = Some e' \<and>
         data_get e' ''sourceEndpoint'' = Some (Str ''eth2'') \<and>
         data_get e' ''targetEndpoint'' = Some (Str ''eth1'') \<and>
         data_get e' ''editor'' = Some (Str ''true'')"
    unfolding i n .
  with g n show ?thesis by blast
qed

section \<open>Properties of the click router and of node deletion\<close>

lemma map_of_filter_key:
  "map_of (filter (\<lambda>kv. fst kv \<noteq> k') d) k = (if k = k' then None else map_of d k)"
  by (induction d) auto

lemma el_id_without_parent:
  "el_id (e\<lparr>el_data := filter (\<lambda>kv. fst kv \<noteq> ''parent'') (el_data e)\<rparr>) = el_id e"
  by (simp add: el_id_def data_get_def map_of_filter_key)

lemma moveToNoParent_ids: "map el_id (moveToNoParent els i) = map el_id els"
  by (induction els) (auto simp: moveToNoParent_def el_id_without_parent)

lemma moveToNoParent_others:
  "x \<in> set els \<Longrightarrow> el_id x \<noteq> Some i \<Longrightarrow> x \<in> set (moveToNoParent els i)"
  by (force simp: moveToNoParent_def)

lemma moveToNoParent_node:
  assumes "x \<in> set (moveToNoParent els i)" and "el_id x = Some i"
  shows "data_get x ''parent'' = None \<and>
         (\<exists>y \<in> set els. el_id y = Some i \<and> el_group x = el_group y \<and>
            el_classes x = el_classes y \<and>
            (\<forall>k. k \<noteq> ''parent'' \<longrightarrow> data_get x k = data_get y k))"
proof -
  from assms(1) obtain y where y: "y \<in> set els"
    and x: "x = (if el_id y = Some i
                 then y\<lparr>el_data := filter (\<lambda>kv. fst kv \<noteq> ''parent'') (el_data y)\<rparr> else y)"
    by (auto simp: moveToNoParent_def)
  show ?thesis
  proof (cases "el_id y = Some i")
    case True
    with x have x': "x = y\<lparr>el_data := filter (\<lambda>kv. fst kv \<noteq> ''parent'') (el_data y)\<rparr>"
      by simp
    have "data_get x ''parent'' = None"
      unfolding x' by (simp add: data_get_def map_of_filter_key)
    moreover have "\<forall>k. k \<noteq> ''parent'' \<longrightarrow> data_get x k = data_get y k"
      unfolding x' by (simp add: data_get_def map_of_filter_key)
    moreover have "el_group x = el_group y" "el_classes x = el_classes y"
      unfolding x' by simp_all
    ultimately show ?thesis using y True by blast
  next
    case False
    with x assms(2) show ?thesis by simp
  qed
qed

lemma withDescendants_start: "set ids \<subseteq> set (withDescendants k els ids)"
proof (induction k arbitrary: ids)
  case 0
  then show ?case by simp
next
  case (Suc k)
  let ?new = "map idOf (filter (\<lambda>m. isNode m \<and> idOf m \<notin> set ids \<and>
      (\<exists>p \<in> set ids. data_get m ''parent'' = Some (Str p))) els)"
  have "set (ids @ ?new) \<subseteq> set (withDescendants k els (ids @ ?new))"
    by (rule Suc.IH)
  then have "set ids \<subseteq> set (withDescendants k els (ids @ ?new))"
    by simp
  then show ?case by simp
qed

lemma removeElement_gone: "getElementById (removeElement els i) i = None"
proof (cases "getElementById els i")
  case None
  then show ?thesis by (simp add: removeElement_def)
next
  case (Some e)
  show ?thesis
  proof (cases "isEdge e")
    case True
    with Some show ?thesis
      by (simp add: removeElement_def getElementById_def find_None_iff)
  next
    case False
    have i: "i \<in> set (withDescendants (length els) els [i])"
      using withDescendants_start [of "[i]" "length els" els] by simp
    have "\<And>x. el_id x = Some i \<Longrightarrow> idOf x \<in> set (withDescendants (length els) els [i])"
      using i by (simp add: idOf_def)
    with Some False show ?thesis
      by (auto simp: removeElement_def getElementById_def find_None_iff Let_def)
  qed
qed

text \<open>
  C8. In edit mode a click on a node is dispatched in this order. With Ctrl held on a
  node that has a parent, the node loses its parent: the elements and their ids stay
  the same, every other element is unchanged, and the node keeps its group, classes and
  every data entry but \<open>parent\<close>. Otherwise, with Shift held on a node whose role is not
  \<open>freeText\<close>, \<open>isEdgeHandlerActive\<close> is set and \<open>eh.start\<close> is called with the node; the
  graph is unchanged. Otherwise, with Alt held on a node whose \<open>editor\<close> flag is
  \<open>"true"\<close>, the node is removed. Otherwise nothing changes but the flag \<open>nodeClicked\<close>
  of the panels, which every click sets.
\<close>

theorem onNodeClick_dispatch:
  "(ctrlKey ev \<and> isChild (cy s) node \<longrightarrow>
      onNodeClick s ev node = s\<lparr>nodeClicked := True, cy := moveToNoParent (cy s) (idOf node)\<rparr> \<and>
      map el_id (cy (onNodeClick s ev node)) = map el_id (cy s) \<and>
      (\<forall>x \<in> set (cy s). el_id x \<noteq> Some (idOf node) \<longrightarrow> x \<in> set (cy (onNodeClick s ev node))) \<and>
      (\<forall>x \<in> set (cy (onNodeClick s ev node)). el_id x = Some (idOf node) \<longrightarrow>
          data_get x ''parent'' = None \<and>
          (\<exists>y \<in> set (cy s). el_id y = Some (idOf node) \<and> el_group x = el_group y \<and>
             el_classes x = el_classes y \<and>
             (\<forall>k. k \<noteq> ''parent'' \<longrightarrow> data_get x k = data_get y k)))) \<and>
   (\<not> (ctrlKey ev \<and> isChild (cy s) node) \<and>
    shiftKey ev \<and> data_get node ''topoViewerRole'' \<noteq> Some (Str ''freeText'') \<longrightarrow>
      onNodeClick s ev node =
        s\<lparr>nodeClicked := True, isEdgeHandlerActive := True,
          eh := map_option (\<lambda>e. e\<lparr>eh_startCalls := idOf node # eh_startCalls e\<rparr>) (eh s)\<rparr>) \<and>
   (\<not> (ctrlKey ev \<and> isChild (cy s) node) \<and>
    \<not> (shiftKey ev \<and> data_get node ''topoViewerRole'' \<noteq> Some (Str ''freeText'')) \<and>
    altKey ev \<and> data_get node ''editor'' = Some (Str ''true'') \<longrightarrow>
      onNodeClick s ev node = s\<lparr>nodeClicked := True, cy := removeElement (cy s) (idOf node)\<rparr> \<and>
      getElementById (cy (onNodeClick s ev node)) (idOf node) = None) \<and>
   (\<not> (ctrlKey ev \<and> isChild (cy s) node) \<and>
    \<not> (shiftKey ev \<and> data_get node ''topoViewerRole'' \<noteq> Some (Str ''freeText'')) \<and>
    \<not> (altKey ev \<and> data_get node ''editor'' = Some (Str ''true'')) \<longrightarrow>
      onNodeClick s ev node = s\<lparr>nodeClicked := True\<rparr>)"
proof (intro conjI impI)
  assume a: "ctrlKey ev \<and> isChild (cy s) node"
  then show e: "onNodeClick s ev node =
      s\<lparr>nodeClicked := True, cy := moveToNoParent (cy s) (idOf node)\<rparr>"
    by (simp add: onNodeClick_def Let_def)
  show "map el_id (cy (onNodeClick s ev node)) = map el_id (cy s)"
    unfolding e by (simp add: moveToNoParent_ids)
  show "\<forall>x \<in> set (cy s). el_id x \<noteq> Some (idOf node) \<longrightarrow> x \<in> set (cy (onNodeClick s ev node))"
    unfolding e by (simp add: moveToNoParent_others)
  show "\<forall>x \<in> set (cy (onNodeClick s ev node)). el_id x = Some (idOf node) \<longrightarrow>
          data_get x ''parent'' = None \<and>
          (\<exists>y \<in> set (cy s). el_id y = Some (idOf node) \<and> el_group x = el_group y \<and>
             el_classes x = el_classes y \<and>
             (\<forall>k. k \<noteq> ''parent'' \<longrightarrow> data_get x k = data_get y k))"
    unfolding e using moveToNoParent_node [of _ "cy s" "idOf node"] by simp
next
  assume "\<not> (ctrlKey ev \<and> isChild (cy s) node) \<and>
    shiftKey ev \<and> data_get node ''topoViewerRole'' \<noteq> Some (Str ''freeText'')"
  then show "onNodeClick s ev node =
        s\<lparr>nodeClicked := True, isEdgeHandlerActive := True,
          eh := map_option (\<lambda>e. e\<lparr>eh_startCalls := idOf node # eh_startCalls e\<rparr>) (eh s)\<rparr>"
    by (auto simp: onNodeClick_def Let_def)
next
  assume a: "\<not> (ctrlKey ev \<and> isChild (cy s) node) \<and>
    \<not> (shiftKey ev \<and> data_get node ''topoViewerRole'' \<noteq> Some (Str ''freeText'')) \<and>
    altKey ev \<and> data_get node ''editor'' = Some (Str ''true'')"
  then show e: "onNodeClick s ev node =
      s\<lparr>nodeClicked := True, cy := removeElement (cy s) (idOf node)\<rparr>"
    by (auto simp: onNodeClick_def Let_def)
  show "getElementById (cy (onNodeClick s ev node)) (idOf node) = None"
    unfolding e by (simp add: removeElement_gone)
next
  assume "\<not> (ctrlKey ev \<and> isChild (cy s) node) \<and>
    \<not> (shiftKey ev \<and> data_get node ''topoViewerRole'' \<noteq> Some (Str ''freeText'')) \<and>
    \<not> (altKey ev \<and> data_get node ''editor'' = Some (Str ''true''))"
  then show "onNodeClick s ev node = s\<lparr>nodeClicked := True\<rparr>"
    by (auto simp: onNodeClick_def Let_def)
qed

lemmas graph_eval_defs =
  isParent_def isChild_def children_def parentOf_def same_def idOf_def el_id_def
  data_get_def isNode_def isEdge_def getElementById_def removeElement_def
  moveToNoParent_def

theorem onNodeClick_dispatch_witness:
  "isChild (cy exampleGroup) node_n1 \<and>
   cy (onNodeClick exampleGroup \<lparr>ctrlKey = True, shiftKey = True, altKey = True\<rparr> node_n1) =
     [node_g1, mkNode ''n1'' [(''editor'', Str ''true''), (''topoViewerRole'', Str ''pe'')],
      node_t1, node_r2, edge_n1_r2] \<and>
   \<not> isChild (cy exampleGroup) node_r2 \<and>
   onNodeClick exampleGroup \<lparr>ctrlKey = True, shiftKey = True, altKey = True\<rparr> node_r2 =
     exampleGroup\<lparr>nodeClicked := True, isEdgeHandlerActive := True,
       eh := Some \<lparr>eh_enabled = True, eh_startCalls = [''r2'']\<rparr>\<rparr> \<and>
   getElementById (cy (onNodeClick exampleGroup
       \<lparr>ctrlKey = False, shiftKey = False, altKey = True\<rparr> node_n1)) ''n1'' = None \<and>
   onNodeClick exampleGroup \<lparr>ctrlKey = True, shiftKey = True, altKey = True\<rparr> node_t1 =
     exampleGroup\<lparr>nodeClicked := True\<rparr>"
proof -
  have c: "isChild (cy exampleGroup) node_n1" "\<not> isChild (cy exampleGroup) node_r2"
    "\<not> isChild (cy exampleGroup) node_t1"
    by (simp_all add: example_defs graph_eval_defs)
  have d: "data_get node_r2 ''topoViewerRole'' \<noteq> Some (Str ''freeText'')"
    "data_get node_t1 ''topoViewerRole'' = Some (Str ''freeText'')"
    "data_get node_t1 ''editor'' \<noteq> Some (Str ''true'')"
    "data_get node_n1 ''editor'' = Some (Str ''true'')"
    "idOf node_n1 = ''n1''" "idOf node_r2 = ''r2''"
    by (simp_all add: example_defs graph_eval_defs)
  have m: "moveToNoParent (cy exampleGroup) ''n1'' =
     [node_g1, mkNode ''n1'' [(''editor'', Str ''true''), (''topoViewerRole'', Str ''pe'')],
      node_t1, node_r2, edge_n1_r2]"
    by (simp add: example_defs graph_eval_defs)
  have e: "eh exampleGroup = Some \<lparr>eh_enabled = True, eh_startCalls = []\<rparr>"
    by (simp add: example_defs)
  from onNodeClick_dispatch
    [of "\<lparr>ctrlKey = True, shiftKey = True, altKey = True\<rparr>" exampleGroup node_n1] c d m
  have 1: "cy (onNodeClick exampleGroup \<lparr>ctrlKey = True, shiftKey = True, altKey = True\<rparr> node_n1) =
     [node_g1, mkNode ''n1'' [(''editor'', Str ''true''), (''topoViewerRole'', Str ''pe'')],
      node_t1, node_r2, edge_n1_r2]"
    by simp
  from onNodeClick_dispatch
    [of "\<lparr>ctrlKey = True, shiftKey = True, altKey = True\<rparr>" exampleGroup node_r2] c d e
  have 2: "onNodeClick exampleGroup \<lparr>ctrlKey = True, shiftKey = True, altKey = True\<rparr> node_r2 =
     exampleGroup\<lparr>nodeClicked := True, isEdgeHandlerActive := True,
       eh := Some \<lparr>eh_enabled = True, eh_startCalls = [''r2'']\<rparr>\<rparr>"
    by simp
  have k: "\<not> ctrlKey \<lparr>ctrlKey = False, shiftKey = False, altKey = True\<rparr>"
    "\<not> shiftKey \<lparr>ctrlKey = False, shiftKey = False, altKey = True\<rparr>"
    "altKey \<lparr>ctrlKey = False, shiftKey = False, altKey = True\<rparr>"
    by simp_all
  from onNodeClick_dispatch
    [of "\<lparr>ctrlKey = False, shiftKey = False, altKey = True\<rparr>" exampleGroup node_n1] k d(4)
  have "getElementById (cy (onNodeClick exampleGroup
       \<lparr>ctrlKey = False, shiftKey = False, altKey = True\<rparr> node_n1)) (idOf node_n1) = None"
    by blast
  then have 3: "getElementById (cy (onNodeClick exampleGroup
       \<lparr>ctrlKey = False, shiftKey = False, altKey = True\<rparr> node_n1)) ''n1'' = None"
    unfolding d(5) .
  from onNodeClick_dispatch
    [of "\<lparr>ctrlKey = True, shiftKey = True, altKey = True\<rparr>" exampleGroup node_t1] c d
  have 4: "onNodeClick exampleGroup \<lparr>ctrlKey = True, shiftKey = True, altKey = True\<rparr> node_t1 =
     exampleGroup\<lparr>nodeClicked := True\<rparr>"
    by simp
  from c 1 2 3 4 show ?thesis by blast
qed

lemma deleteNodeCommand_childless_parent:
  assumes "isNode ele" and "parentOf (cy s) ele = Some p"
    and "children (removeElement (cy s) (idOf ele)) p = []"
  shows "getElementById (cy (deleteNodeCommand s ele)) (idOf p) = None"
  using assms by (simp add: deleteNodeCommand_def Let_def removeElement_gone)

lemma deleteNodeCommand_parent_with_children:
  assumes "isNode ele" and "parentOf (cy s) ele = Some p"
    and "children (removeElement (cy s) (idOf ele)) p \<noteq> []"
  shows "cy (deleteNodeCommand s ele) = removeElement (cy s) (idOf ele)"
  using assms by (simp add: deleteNodeCommand_def Let_def)

text \<open>
  C9. The command Delete Node removes a parent that the deletion leaves without
  children (the two lemmas above), but the Alt+click branch of \<open>onNodeClick\<close> does not.
  Deleting the only child \<open>n1\<close> of the group \<open>g1\<close> with Alt+click removes \<open>n1\<close> and
  its link and leaves \<open>g1\<close> in the graph without any child, while the command Delete
  Node of the context menu, on the same node in the same graph, removes \<open>g1\<close> as well.
\<close>

theorem altClick_leaves_childless_parent:
  "cy (onNodeClick exampleGroup \<lparr>ctrlKey = False, shiftKey = False, altKey = True\<rparr> node_n1) =
     [node_g1, node_t1, node_r2] \<and>
   parentOf (cy exampleGroup) node_n1 = Some node_g1 \<and>
   children [node_g1, node_t1, node_r2] node_g1 = [] \<and>
   cy (deleteNodeCommand exampleGroup node_n1) = [node_t1, node_r2]"
  by (simp add: onNodeClick_def deleteNodeCommand_def example_defs graph_eval_defs Let_def)

section \<open>Properties of the updateTopology handler\<close>

lemma map_of_data_assign:
  "map_of (data_assign d obj) k =
     (if immutableKey k then map_of d k
      else case map_of (rev obj) k of Some v \<Rightarrow> Some v | None \<Rightarrow> map_of d k)"
proof (induction obj arbitrary: d)
  case Nil
  then show ?case by (simp add: data_assign_Nil)
next
  case (Cons kv obj)
  show ?case
    by (cases kv) (auto simp: data_assign_Cons Cons.IH map_of_obj_set map_add_def
        split: option.splits)
qed

lemma el_id_classes: "el_id (e\<lparr>el_classes := c\<rparr>) = el_id e"
  by (simp add: el_id_def data_get_def)

lemma updateElement_nth:
  "n < length els \<Longrightarrow> el_id (els ! n) \<noteq> Some i \<Longrightarrow> updateElement els i f ! n = els ! n"
  by (simp add: updateElement_def)

lemma emitData_cases:
  "emitData s = (if listensFor s ''data'' then s\<lparr>timeout := Some (clock s + wait)\<rparr> else s)"
  by (simp add: emitData_def onCyEvent_def autoSave_def)

lemma emitAdd_cases:
  "emitAdd s = (if listensFor s ''add'' then s\<lparr>timeout := Some (clock s + wait)\<rparr> else s)"
  by (simp add: emitAdd_def onCyEvent_def autoSave_def)

lemma listensFor_cy: "listensFor (s\<lparr>cy := els\<rparr>) name = listensFor s name"
  by (simp add: listensFor_def)

lemma applyPatch_skip: "patchId el = None \<Longrightarrow> applyPatch s el = Inr s"
  by (simp add: applyPatch_def)

lemma forEachPatch_filter:
  "forEachPatch s (filter (\<lambda>el. patchId el \<noteq> None) ps) = forEachPatch s ps"
proof (induction ps arbitrary: s)
  case Nil
  show ?case by simp
next
  case (Cons el ps)
  show ?case
  proof (cases "patchId el")
    case None
    then show ?thesis by (simp add: applyPatch_skip Cons.IH del: not_None_eq)
  next
    case (Some i)
    then show ?thesis
      by (cases "applyPatch s el") (simp_all add: Cons.IH del: not_None_eq)
  qed
qed

lemma el_id_patchExisting: "el_id (patchExisting p e) = el_id e"
  by (cases "p_classes p") (simp_all add: patchExisting_def Let_def el_id_classes el_id_data_assign)

lemma applyPatch_existing:
  "patchId (Some p) = Some i \<Longrightarrow> getElementById (cy s) i = Some e \<Longrightarrow>
     applyPatch s (Some p) =
       Inr (s\<lparr>cy := updateElement (cy s) i (patchExisting p),
               timeout := if listensFor s ''data'' then Some (clock s + wait) else timeout s\<rparr>)"
  by (simp add: applyPatch_def emitData_cases listensFor_cy)

lemma applyPatch_new:
  "patchId (Some p) = Some i \<Longrightarrow> getElementById (cy s) i = None \<Longrightarrow>
   edgeError (cy s) p = None \<Longrightarrow>
     applyPatch s (Some p) =
       Inr (s\<lparr>cy := cy s @ [newElement (cy s) p],
               timeout := if listensFor s ''add'' then Some (clock s + wait) else timeout s\<rparr>)"
  by (simp add: applyPatch_def cyAdd_def emitAdd_cases listensFor_cy)

lemma applyPatch_throws:
  "patchId (Some p) = Some i \<Longrightarrow> getElementById (cy s) i = None \<Longrightarrow>
   edgeError (cy s) p = Some err \<Longrightarrow> applyPatch s (Some p) = Inl err"
  by (simp add: applyPatch_def cyAdd_def)

lemma applyPatch_frame:
  "applyPatch s el = Inr s' \<Longrightarrow> s' = s\<lparr>cy := cy s', timeout := timeout s'\<rparr>"
  by (auto simp: applyPatch_def cyAdd_def emitData_cases emitAdd_cases
      split: option.splits if_splits)

lemma patchExisting_data:
  "p_data p = Some d \<Longrightarrow>
   data_get (patchExisting p e) k =
     (if immutableKey k then data_get e k
      else case map_of (rev d) k of Some v \<Rightarrow> Some v | None \<Rightarrow> data_get e k)"
  by (cases "p_classes p"; cases "map_of (rev d) k")
     (simp_all add: patchExisting_def Let_def data_get_def map_of_data_assign)

lemma patchExisting_classes:
  "el_classes (patchExisting p e) =
     (case p_classes p of Some c \<Rightarrow> classList c | None \<Rightarrow> el_classes e)"
  by (cases "p_classes p") (simp_all add: patchExisting_def Let_def)

lemma patchExisting_group: "el_group (patchExisting p e) = el_group e"
  by (cases "p_classes p") (simp_all add: patchExisting_def Let_def)

lemma newElement_data:
  "p_data p = Some d \<Longrightarrow>
   data_get (newElement els p) k =
     (if patchGroup p = Nodes \<and> k = ''parent'' \<and>
         (\<forall>q. map_of d ''parent'' = Some (Str q) \<longrightarrow> getElementById els q = None)
      then None else map_of d k)"
  by (auto simp: newElement_def data_get_def Let_def map_of_filter_key
      split: option.splits jsval.splits)

lemma el_id_newElement: "patchId (Some p) = Some i \<Longrightarrow> el_id (newElement els p) = Some i"
proof -
  assume a: "patchId (Some p) = Some i"
  then obtain d where d: "p_data p = Some d" "map_of d ''id'' = Some (Str i)"
    by (auto simp: patchId_def split: option.splits jsval.splits if_splits)
  have "data_get (newElement els p) ''id'' = map_of d ''id''"
    using newElement_data [OF d(1), of els "''id''"] by simp
  with d show ?thesis by (simp add: el_id_def)
qed

lemma newElement_group: "el_group (newElement els p) = patchGroup p"
  by (simp add: newElement_def Let_def)

lemma newElement_classes:
  "el_classes (newElement els p) = (case p_classes p of Some c \<Rightarrow> classList c | None \<Rightarrow> [])"
  by (simp add: newElement_def Let_def)

lemma endpointError_None:
  "endpointError els d field = None \<longleftrightarrow>
     (\<exists>v. v \<noteq> [] \<and> map_of d field = Some (Str v) \<and> getElementById els v \<noteq> None)"
  by (auto simp: endpointError_def split: option.splits jsval.splits)

lemma edgeError_None:
  "p_data p = Some d \<Longrightarrow>
   edgeError els p = None \<longleftrightarrow>
     patchGroup p = Nodes \<or>
     (\<exists>a b. a \<noteq> [] \<and> b \<noteq> [] \<and>
        map_of d ''source'' = Some (Str a) \<and> getElementById els a \<noteq> None \<and>
        map_of d ''target'' = Some (Str b) \<and> getElementById els b \<noteq> None)"
proof (cases "patchGroup p")
  case Nodes
  then show ?thesis by (simp add: edgeError_def Let_def)
next
  case Edges
  assume d: "p_data p = Some d"
  show ?thesis
  proof (cases "endpointError els d ''source''")
    case None
    with Edges d show ?thesis
      using endpointError_None [of els d "''source''"] endpointError_None [of els d "''target''"]
      by (simp add: edgeError_def Let_def) blast
  next
    case (Some err)
    with Edges d show ?thesis
      using endpointError_None [of els d "''source''"]
      by (simp add: edgeError_def Let_def) blast
  qed
qed

lemma patchGroup_eq:
  "p_data p = Some d \<Longrightarrow>
   patchGroup p =
     (case p_group p of
        Some g \<Rightarrow> g
      | None \<Rightarrow> if map_of d ''source'' \<noteq> None \<and> map_of d ''target'' \<noteq> None
                 then Edges else Nodes)"
  by (simp add: patchGroup_def del: not_None_eq)

lemma updateTopology_Cons:
  "updateTopology s (Some (el # ps)) =
     (case applyPatch s el of
        Inl err \<Rightarrow> s
      | Inr s' \<Rightarrow> updateTopology s' (Some ps))"
  by (cases "applyPatch s el") (simp_all add: updateTopology_def)

lemmas patch_eval_defs =
  updateTopology_def applyPatch_def cyAdd_def edgeError_def endpointError_def patchGroup_def
  patchId_def patchExisting_def newElement_def emitData_def emitAdd_def listensFor_def
  onCyEvent_def autoSave_def wait_def
  updateElement_def data_assign_def immutableKey_def classList_def splitWords_def is_space_def
  getElementById_def el_id_def data_get_def idOf_def

text \<open>
  C3 as stated fails. The claim has every patch whose id names no element inserted, and
  no patch affected by another patch of the same message. In \<open>exampleLinks\<close> neither
  \<open>r1-r9\<close> nor \<open>r9\<close> names an element. The patch \<open>r1-r9\<close> is an edge whose target \<open>r9\<close> is
  not in the graph: \<open>cy.add\<close> throws, the \<open>try\<close> around the whole \<open>forEach\<close> catches the
  error, and the patch \<open>r9\<close> that follows in the same message is never inserted, although
  alone it is.
\<close>

theorem updateTopology_dangling_edge_drops_rest:
  "patchId (Some patch_dangling) = Some ''r1-r9'' \<and>
   getElementById (cy exampleLinks) ''r1-r9'' = None \<and>
   patchId (Some patch_r9) = Some ''r9'' \<and>
   getElementById (cy exampleLinks) ''r9'' = None \<and>
   applyPatch exampleLinks (Some patch_dangling) = Inl (NonexistentEndpoint ''target'') \<and>
   updateTopology exampleLinks (Some [Some patch_dangling, Some patch_r9]) = exampleLinks \<and>
   getElementById (cy (updateTopology exampleLinks (Some [Some patch_dangling, Some patch_r9])))
     ''r9'' = None \<and>
   getElementById (cy (updateTopology exampleLinks (Some [Some patch_r9]))) ''r9'' =
     Some (mkNode ''r9'' [])"
  by (simp add: example_defs patch_eval_defs)

text \<open>
  C3, amended. For every patch of an \<open>updateTopology\<close> message, handled in a controller
  state \<open>s\<close>: a patch without an id (a \<open>null\<close> entry, no data, no id, or an empty id) is
  skipped and leaves the controller as it is. A patch whose id names an existing element
  keeps the elements and their ids as they are (so nothing is duplicated), leaves every
  other element unchanged, assigns each entry of the patch data to the element's data
  (but for the keys Cytoscape keeps immutable; the last entry of a key wins) and, when
  \<open>classes\<close> is a string, replaces the class list by its distinct words. A patch whose id
  names no element is appended as a new element with that id, the group, the classes and
  the data of the patch (a node loses a \<open>parent\<close> that names no element), provided that
  \<open>cy.add\<close> accepts it: it is a node, or its source and its target name elements of the
  graph. Otherwise \<open>cy.add\<close> throws, the patch adds nothing, and the handler leaves the
  loop: the patches after it in the same message are dropped, those before it stay
  applied. A patch that is applied changes nothing but the graph and, when the autosave
  listeners are registered, the autosave timer. The handler applies the patches in
  order, and a message gives the same result as the message without its id-less
  patches.
\<close>

theorem updateTopology_patches:
  "(patchId el = None \<longrightarrow> applyPatch s el = Inr s) \<and>
   (patchId (Some p) = Some i \<and> p_data p = Some d \<and> getElementById (cy s) i = Some e \<longrightarrow>
      (\<exists>s'. applyPatch s (Some p) = Inr s' \<and>
         map el_id (cy s') = map el_id (cy s) \<and>
         (\<forall>n. n < length (cy s) \<and> el_id (cy s ! n) \<noteq> Some i \<longrightarrow> cy s' ! n = cy s ! n) \<and>
         (\<exists>e'. getElementById (cy s') i = Some e' \<and>
            el_group e' = el_group e \<and>
            (\<forall>k. data_get e' k =
                   (if immutableKey k then data_get e k
                    else case map_of (rev d) k of Some v \<Rightarrow> Some v | None \<Rightarrow> data_get e k)) \<and>
            el_classes e' =
              (case p_classes p of Some c \<Rightarrow> classList c | None \<Rightarrow> el_classes e)) \<and>
         timeout s' = (if listensFor s ''data'' then Some (clock s + wait) else timeout s))) \<and>
   (patchId (Some p) = Some i \<and> p_data p = Some d \<and> getElementById (cy s) i = None \<and>
    edgeError (cy s) p = None \<longrightarrow>
      (\<exists>s'. applyPatch s (Some p) = Inr s' \<and>
         cy s' = cy s @ [newElement (cy s) p] \<and>
         timeout s' = (if listensFor s ''add'' then Some (clock s + wait) else timeout s)) \<and>
      el_id (newElement (cy s) p) = Some i \<and>
      el_group (newElement (cy s) p) = patchGroup p \<and>
      el_classes (newElement (cy s) p) =
        (case p_classes p of Some c \<Rightarrow> classList c | None \<Rightarrow> []) \<and>
      (\<forall>k. data_get (newElement (cy s) p) k =
             (if patchGroup p = Nodes \<and> k = ''parent'' \<and>
                 (\<forall>q. map_of d ''parent'' = Some (Str q) \<longrightarrow> getElementById (cy s) q = None)
              then None else map_of d k))) \<and>
   (patchId (Some p) = Some i \<and> getElementById (cy s) i = None \<and>
    edgeError (cy s) p = Some err \<longrightarrow>
      applyPatch s (Some p) = Inl err \<and>
      updateTopology s (Some (Some p # rest)) = s) \<and>
   (p_data p = Some d \<longrightarrow>
      patchGroup p =
        (case p_group p of
           Some g \<Rightarrow> g
         | None \<Rightarrow> if map_of d ''source'' \<noteq> None \<and> map_of d ''target'' \<noteq> None
                    then Edges else Nodes) \<and>
      (edgeError (cy s) p = None \<longleftrightarrow>
         patchGroup p = Nodes \<or>
         (\<exists>a b. a \<noteq> [] \<and> b \<noteq> [] \<and>
            map_of d ''source'' = Some (Str a) \<and> getElementById (cy s) a \<noteq> None \<and>
            map_of d ''target'' = Some (Str b) \<and> getElementById (cy s) b \<noteq> None))) \<and>
   (applyPatch s el = Inr t \<longrightarrow> t = s\<lparr>cy := cy t, timeout := timeout t\<rparr>) \<and>
   updateTopology s None = s \<and>
   updateTopology s (Some []) = s \<and>
   updateTopology s (Some (el # ps)) =
     (case applyPatch s el of
        Inl err \<Rightarrow> s
      | Inr s' \<Rightarrow> updateTopology s' (Some ps)) \<and>
   updateTopology s (Some ps) =
     updateTopology s (Some (filter (\<lambda>el. patchId el \<noteq> None) ps))"
proof (intro conjI impI)
  assume "patchId el = None"
  then show "applyPatch s el = Inr s" by (rule applyPatch_skip)
next
  assume a: "patchId (Some p) = Some i \<and> p_data p = Some d \<and> getElementById (cy s) i = Some e"
  let ?s' = "s\<lparr>cy := updateElement (cy s) i (patchExisting p),
               timeout := if listensFor s ''data'' then Some (clock s + wait) else timeout s\<rparr>"
  have eq: "applyPatch s (Some p) = Inr ?s'"
    using a applyPatch_existing by blast
  have c: "cy ?s' = updateElement (cy s) i (patchExisting p)" by simp
  have 1: "map el_id (cy ?s') = map el_id (cy s)"
    unfolding c by (rule map_el_id_updateElement) (rule el_id_patchExisting)
  have 2: "\<forall>n. n < length (cy s) \<and> el_id (cy s ! n) \<noteq> Some i \<longrightarrow> cy ?s' ! n = cy s ! n"
    unfolding c by (simp add: updateElement_nth)
  have g: "getElementById (cy ?s') i = Some (patchExisting p e)"
    unfolding c using a by (simp add: getElementById_updateElement el_id_patchExisting)
  have dt: "\<forall>k. data_get (patchExisting p e) k =
                   (if immutableKey k then data_get e k
                    else case map_of (rev d) k of Some v \<Rightarrow> Some v | None \<Rightarrow> data_get e k)"
    using a by (simp add: patchExisting_data)
  have 3: "\<exists>e'. getElementById (cy ?s') i = Some e' \<and>
            el_group e' = el_group e \<and>
            (\<forall>k. data_get e' k =
                   (if immutableKey k then data_get e k
                    else case map_of (rev d) k of Some v \<Rightarrow> Some v | None \<Rightarrow> data_get e k)) \<and>
            el_classes e' =
              (case p_classes p of Some c \<Rightarrow> classList c | None \<Rightarrow> el_classes e)"
    using g dt patchExisting_classes [of p e] patchExisting_group [of p e] by blast
  have 4: "timeout ?s' = (if listensFor s ''data'' then Some (clock s + wait) else timeout s)"
    by simp
  show "\<exists>s'. applyPatch s (Some p) = Inr s' \<and>
         map el_id (cy s') = map el_id (cy s) \<and>
         (\<forall>n. n < length (cy s) \<and> el_id (cy s ! n) \<noteq> Some i \<longrightarrow> cy s' ! n = cy s ! n) \<and>
         (\<exists>e'. getElementById (cy s') i = Some e' \<and>
            el_group e' = el_group e \<and>
            (\<forall>k. data_get e' k =
                   (if immutableKey k then data_get e k
                    else case map_of (rev d) k of Some v \<Rightarrow> Some v | None \<Rightarrow> data_get e k)) \<and>
            el_classes e' =
              (case p_classes p of Some c \<Rightarrow> classList c | None \<Rightarrow> el_classes e)) \<and>
         timeout s' = (if listensFor s ''data'' then Some (clock s + wait) else timeout s)"
    apply (rule exI [of _ ?s'])
    apply (intro conjI)
        apply (rule eq)
       apply (rule 1)
      apply (rule 2)
     apply (rule 3)
    apply (rule 4)
    done
next
  assume a: "patchId (Some p) = Some i \<and> p_data p = Some d \<and> getElementById (cy s) i = None \<and>
    edgeError (cy s) p = None"
  let ?s' = "s\<lparr>cy := cy s @ [newElement (cy s) p],
               timeout := if listensFor s ''add'' then Some (clock s + wait) else timeout s\<rparr>"
  have eq: "applyPatch s (Some p) = Inr ?s'"
    using a applyPatch_new by blast
  show "\<exists>s'. applyPatch s (Some p) = Inr s' \<and>
         cy s' = cy s @ [newElement (cy s) p] \<and>
         timeout s' = (if listensFor s ''add'' then Some (clock s + wait) else timeout s)"
    apply (rule exI [of _ ?s'])
    apply (intro conjI)
      apply (rule eq)
     apply simp
    apply simp
    done
  from a show "el_id (newElement (cy s) p) = Some i"
    using el_id_newElement by blast
  show "el_group (newElement (cy s) p) = patchGroup p"
    by (rule newElement_group)
  show "el_classes (newElement (cy s) p) =
        (case p_classes p of Some c \<Rightarrow> classList c | None \<Rightarrow> [])"
    by (rule newElement_classes)
  from a have d: "p_data p = Some d" by simp
  show "\<forall>k. data_get (newElement (cy s) p) k =
             (if patchGroup p = Nodes \<and> k = ''parent'' \<and>
                 (\<forall>q. map_of d ''parent'' = Some (Str q) \<longrightarrow> getElementById (cy s) q = None)
              then None else map_of d k)"
    by (rule allI) (rule newElement_data [OF d])
next
  assume a: "patchId (Some p) = Some i \<and> getElementById (cy s) i = None \<and>
    edgeError (cy s) p = Some err"
  then show t: "applyPatch s (Some p) = Inl err"
    using applyPatch_throws by blast
  show "updateTopology s (Some (Some p # rest)) = s"
    unfolding updateTopology_Cons t by simp
next
  assume d: "p_data p = Some d"
  show "patchGroup p =
        (case p_group p of
           Some g \<Rightarrow> g
         | None \<Rightarrow> if map_of d ''source'' \<noteq> None \<and> map_of d ''target'' \<noteq> None
                    then Edges else Nodes)"
    by (rule patchGroup_eq [OF d])
  show "edgeError (cy s) p = None \<longleftrightarrow>
         patchGroup p = Nodes \<or>
         (\<exists>a b. a \<noteq> [] \<and> b \<noteq> [] \<and>
            map_of d ''source'' = Some (Str a) \<and> getElementById (cy s) a \<noteq> None \<and>
            map_of d ''target'' = Some (Str b) \<and> getElementById (cy s) b \<noteq> None)"
    by (rule edgeError_None [OF d])
next
  assume "applyPatch s el = Inr t"
  then show "t = s\<lparr>cy := cy t, timeout := timeout t\<rparr>" by (rule applyPatch_frame)
next
  show "updateTopology s None = s" by (simp add: updateTopology_def)
  show "updateTopology s (Some []) = s" by (simp add: updateTopology_def)
  show "updateTopology s (Some (el # ps)) =
     (case applyPatch s el of
        Inl err \<Rightarrow> s
      | Inr s' \<Rightarrow> updateTopology s' (Some ps))"
    by (rule updateTopology_Cons)
  show "updateTopology s (Some ps) =
     updateTopology s (Some (filter (\<lambda>el. patchId el \<noteq> None) ps))"
    by (simp add: updateTopology_def forEachPatch_filter del: not_None_eq)
qed

theorem updateTopology_patches_witness:
  "patchId None = None \<and> patchId (Some patch_noid) = None \<and>
   applyPatch exampleLinks (Some patch_noid) = Inr exampleLinks \<and>
   patchId (Some patch_r1) = Some ''r1'' \<and>
   getElementById (cy (setupAutoSave exampleLinks)) ''r1'' = Some (mkNode ''r1'' []) \<and>
   (\<exists>s'. applyPatch (setupAutoSave exampleLinks) (Some patch_r1) = Inr s' \<and>
      map el_id (cy s') = map el_id (cy exampleLinks) \<and>
      getElementById (cy s') ''r1'' =
        Some \<lparr>el_group = Nodes, el_data = [(''id'', Str ''r1''), (''name'', Str ''core'')],
              el_classes = [''spine'', ''up''], el_grabbable = True\<rparr> \<and>
      timeout s' = Some 500) \<and>
   patchId (Some patch_r2_r3) = Some ''r2-r3'' \<and>
   getElementById (cy exampleLinks) ''r2-r3'' = None \<and>
   edgeError (cy exampleLinks) patch_r2_r3 = None \<and>
   (\<exists>s'. applyPatch exampleLinks (Some patch_r2_r3) = Inr s' \<and>
      cy s' = cy exampleLinks @
        [\<lparr>el_group = Edges,
          el_data = [(''id'', Str ''r2-r3''), (''source'', Str ''r2''), (''target'', Str ''r3'')],
          el_classes = [''link'', ''up''], el_grabbable = True\<rparr>] \<and>
      timeout s' = None) \<and>
   patchId (Some patch_dangling) = Some ''r1-r9'' \<and>
   getElementById (cy exampleLinks) ''r1-r9'' = None \<and>
   edgeError (cy exampleLinks) patch_dangling = Some (NonexistentEndpoint ''target'') \<and>
   updateTopology exampleLinks (Some (Some patch_dangling # [Some patch_r9])) = exampleLinks \<and>
   updateTopology exampleLinks (Some examplePayload) =
     updateTopology exampleLinks (Some [Some patch_r1, Some patch_r9])"
proof -
  note T = updateTopology_patches
  note skipI = T [THEN conjunct1, THEN mp]
  note existI = T [where s = "setupAutoSave exampleLinks" and p = patch_r1 and i = "''r1''"
      and d = "[(''id'', Str ''r1''), (''name'', Str ''core'')]" and e = "mkNode ''r1'' []",
    THEN conjunct2, THEN conjunct1, THEN mp]
  note newI = T [where s = exampleLinks and p = patch_r2_r3 and i = "''r2-r3''"
      and d = "[(''id'', Str ''r2-r3''), (''source'', Str ''r2''), (''target'', Str ''r3'')]",
    THEN conjunct2, THEN conjunct2, THEN conjunct1, THEN mp, THEN conjunct1]
  note throwI = T [where s = exampleLinks and p = patch_dangling and i = "''r1-r9''"
      and err = "NonexistentEndpoint ''target''" and rest = "[Some patch_r9]",
    THEN conjunct2, THEN conjunct2, THEN conjunct2, THEN conjunct1, THEN mp, THEN conjunct2]
  note filterI = T [where s = exampleLinks and ps = examplePayload,
    THEN conjunct2, THEN conjunct2, THEN conjunct2, THEN conjunct2, THEN conjunct2,
    THEN conjunct2, THEN conjunct2, THEN conjunct2, THEN conjunct2]
  have i: "patchId None = None" "patchId (Some patch_noid) = None"
    "patchId (Some patch_r1) = Some ''r1''" "patchId (Some patch_r9) = Some ''r9''"
    "patchId (Some patch_r2_r3) = Some ''r2-r3''" "patchId (Some patch_dangling) = Some ''r1-r9''"
    by (simp_all add: example_defs patchId_def)
  have g: "getElementById (cy (setupAutoSave exampleLinks)) ''r1'' = Some (mkNode ''r1'' [])"
    "getElementById (cy exampleLinks) ''r2-r3'' = None"
    "getElementById (cy exampleLinks) ''r1-r9'' = None"
    by (simp_all add: example_defs setupAutoSave_def getElementById_def el_id_def data_get_def)
  have d: "p_data patch_r1 = Some [(''id'', Str ''r1''), (''name'', Str ''core'')]"
    "p_data patch_r2_r3 =
       Some [(''id'', Str ''r2-r3''), (''source'', Str ''r2''), (''target'', Str ''r3'')]"
    by (simp_all add: example_defs)
  have ee: "edgeError (cy exampleLinks) patch_r2_r3 = None"
    "edgeError (cy exampleLinks) patch_dangling = Some (NonexistentEndpoint ''target'')"
    by (simp_all add: example_defs patch_eval_defs)
  have 1: "applyPatch exampleLinks (Some patch_noid) = Inr exampleLinks"
    by (rule skipI) (rule i(2))
  have l: "listensFor (setupAutoSave exampleLinks) ''data''"
    "\<not> listensFor exampleLinks ''add''"
    "clock (setupAutoSave exampleLinks) + wait = 500"
    "timeout exampleLinks = None"
    by (simp_all add: example_defs setupAutoSave_def autoSaveListeners_def listensFor_def
        splitWords_def is_space_def wait_def)
  have c: "cy (setupAutoSave exampleLinks) = cy exampleLinks"
    by (simp add: setupAutoSave_def)
  have v: "case applyPatch (setupAutoSave exampleLinks) (Some patch_r1) of
             Inl err \<Rightarrow> False
           | Inr s' \<Rightarrow> getElementById (cy s') ''r1'' =
               Some \<lparr>el_group = Nodes, el_data = [(''id'', Str ''r1''), (''name'', Str ''core'')],
                     el_classes = [''spine'', ''up''], el_grabbable = True\<rparr>"
    by (simp add: example_defs patch_eval_defs setupAutoSave_def autoSaveListeners_def)
  have w: "newElement (cy exampleLinks) patch_r2_r3 =
        \<lparr>el_group = Edges,
          el_data = [(''id'', Str ''r2-r3''), (''source'', Str ''r2''), (''target'', Str ''r3'')],
          el_classes = [''link'', ''up''], el_grabbable = True\<rparr>"
    by (simp add: example_defs patch_eval_defs)
  from existI i(3) d(1) g(1)
  obtain s1 where s1: "applyPatch (setupAutoSave exampleLinks) (Some patch_r1) = Inr s1"
    "map el_id (cy s1) = map el_id (cy (setupAutoSave exampleLinks))"
    "timeout s1 = (if listensFor (setupAutoSave exampleLinks) ''data''
                   then Some (clock (setupAutoSave exampleLinks) + wait)
                   else timeout (setupAutoSave exampleLinks))"
    by blast
  from v s1(1) have s1v: "getElementById (cy s1) ''r1'' =
        Some \<lparr>el_group = Nodes, el_data = [(''id'', Str ''r1''), (''name'', Str ''core'')],
              el_classes = [''spine'', ''up''], el_grabbable = True\<rparr>"
    by simp
  from s1(3) l have s1t: "timeout s1 = Some 500" by simp
  from s1(2) c have s1m: "map el_id (cy s1) = map el_id (cy exampleLinks)" by simp
  have 2: "\<exists>s'. applyPatch (setupAutoSave exampleLinks) (Some patch_r1) = Inr s' \<and>
      map el_id (cy s') = map el_id (cy exampleLinks) \<and>
      getElementById (cy s') ''r1'' =
        Some \<lparr>el_group = Nodes, el_data = [(''id'', Str ''r1''), (''name'', Str ''core'')],
              el_classes = [''spine'', ''up''], el_grabbable = True\<rparr> \<and>
      timeout s' = Some 500"
    using s1(1) s1m s1v s1t by blast
  from newI i(5) d(2) g(2) ee(1)
  obtain s2 where s2: "applyPatch exampleLinks (Some patch_r2_r3) = Inr s2"
    "cy s2 = cy exampleLinks @ [newElement (cy exampleLinks) patch_r2_r3]"
    "timeout s2 = (if listensFor exampleLinks ''add''
                   then Some (clock exampleLinks + wait) else timeout exampleLinks)"
    by blast
  from s2(3) l have s2t: "timeout s2 = None" by simp
  have 3: "\<exists>s'. applyPatch exampleLinks (Some patch_r2_r3) = Inr s' \<and>
      cy s' = cy exampleLinks @
        [\<lparr>el_group = Edges,
          el_data = [(''id'', Str ''r2-r3''), (''source'', Str ''r2''), (''target'', Str ''r3'')],
          el_classes = [''link'', ''up''], el_grabbable = True\<rparr>] \<and>
      timeout s' = None"
    using s2(1) s2(2) s2t unfolding w by blast
  have 4: "updateTopology exampleLinks (Some (Some patch_dangling # [Some patch_r9])) =
      exampleLinks"
    using i(6) g(3) ee(2) by (intro throwI) simp
  have f: "filter (\<lambda>el. patchId el \<noteq> None) examplePayload = [Some patch_r1, Some patch_r9]"
    unfolding examplePayload_def using i by (simp del: not_None_eq)
  have 5: "updateTopology exampleLinks (Some examplePayload) =
     updateTopology exampleLinks (Some [Some patch_r1, Some patch_r9])"
    using filterI unfolding f .
  show ?thesis
    apply (intro conjI)
                  apply (rule i(1))
                 apply (rule i(2))
                apply (rule 1)
               apply (rule i(3))
              apply (rule g(1))
             apply (rule 2)
            apply (rule i(5))
           apply (rule g(2))
          apply (rule ee(1))
         apply (rule 3)
        apply (rule i(6))
       apply (rule g(3))
      apply (rule ee(2))
     apply (rule 4)
    apply (rule 5)
    done
qed

section \<open>Properties of autosave\<close>

lemma onCyEvent_autoSave: "ev \<noteq> Position True \<Longrightarrow> onCyEvent s ev = autoSave s"
  by (cases ev) (auto simp: onCyEvent_def)

lemma onCyEvent_grabbed: "onCyEvent s (Position True) = s"
  by (simp add: onCyEvent_def)

lemma mutation_then_quiet:
  "ev \<noteq> Position True \<Longrightarrow> d < wait \<Longrightarrow>
     elapse (onCyEvent s ev) d = s\<lparr>timeout := Some (clock s + wait), clock := clock s + d\<rparr>"
  by (simp add: onCyEvent_autoSave autoSave_def elapse_def)

lemma mutation_then_fire:
  "ev \<noteq> Position True \<Longrightarrow> wait \<le> d \<Longrightarrow>
     elapse (onCyEvent s ev) d =
       (if isEdgeHandlerActive s \<or> isEditingLocked s
        then s\<lparr>timeout := None, clock := clock s + d\<rparr>
        else s\<lparr>timeout := None, clock := clock s + d,
               saveStarted := (clock s + wait) # saveStarted s,
               saveInFlight := Suc (saveInFlight s)\<rparr>)"
  by (simp add: onCyEvent_autoSave autoSave_def elapse_def autoSaveCallback_def startSave_def
      isEditingBlocked_def max_def)

lemma run_Nil: "run s [] = s"
  by (simp add: run_def)

lemma run_Cy_Elapse:
  "run s (Cy ev # Elapse d # es) = run (elapse (onCyEvent s ev) d) es"
  by (simp add: run_def step_def)

lemma run_append: "run s (es @ es') = run (run s es) es'"
  by (simp add: run_def)

lemma burst:
  assumes ev: "e1 \<noteq> Position True" "e2 \<noteq> Position True" "e3 \<noteq> Position True"
      "e4 \<noteq> Position True" "e5 \<noteq> Position True"
    and g: "g1 < wait" "g2 < wait" "g3 < wait" "g4 < wait" and w: "wait \<le> w"
  shows "run s [Cy e1, Elapse g1, Cy e2, Elapse g2, Cy e3, Elapse g3, Cy e4, Elapse g4,
                Cy e5, Elapse w] =
       (if isEdgeHandlerActive s \<or> isEditingLocked s
        then s\<lparr>timeout := None, clock := clock s + g1 + g2 + g3 + g4 + w\<rparr>
        else s\<lparr>timeout := None, clock := clock s + g1 + g2 + g3 + g4 + w,
               saveStarted := (clock s + g1 + g2 + g3 + g4 + wait) # saveStarted s,
               saveInFlight := Suc (saveInFlight s)\<rparr>)"
  using ev g w
  by (simp add: run_Cy_Elapse run_Nil mutation_then_quiet mutation_then_fire)

text \<open>
  C5 as stated fails where the timer callback is blocked: with editing locked, five
  \<open>data\<close> events 100 ms apart and a quiet period after them start no save at all.
\<close>

theorem autosave_blocked_burst_no_save:
  "isEditingLocked exampleLocked \<and>
   saveStarted (run exampleLocked
     [Cy Data, Elapse 100, Cy Data, Elapse 100, Cy Data, Elapse 100, Cy Data, Elapse 100,
      Cy Data, Elapse 500]) = []"
proof -
  have l: "isEditingLocked exampleLocked"
    unfolding exampleLocked_def by (rule onDeploymentStateChanged_locks)
  have s: "saveStarted exampleLocked = []"
    by (simp add: exampleLocked_def example_defs lock_defs Let_def)
  have "run exampleLocked
     [Cy Data, Elapse 100, Cy Data, Elapse 100, Cy Data, Elapse 100, Cy Data, Elapse 100,
      Cy Data, Elapse 500] =
     exampleLocked\<lparr>timeout := None, clock := clock exampleLocked + 100 + 100 + 100 + 100 + 500\<rparr>"
    using l by (subst burst) (simp_all add: wait_def)
  with l s show ?thesis by simp
qed

text \<open>
  C5, amended. Every event that calls \<open>autoSave\<close> (\<open>add\<close>, \<open>remove\<close>, \<open>data\<close>,
  \<open>dragfree\<close>, and \<open>position\<close> of an element that is not grabbed) restarts the timer; a
  \<open>position\<close> event of a grabbed element does nothing. Five such events, each less than
  the quiet period after the previous one, followed by a quiet period, start exactly one
  save, one quiet period after the fifth event, provided that no edge draw is active and
  editing is not locked; a sixth event after that, followed by a quiet period, starts a
  second save one quiet period after it. While an edge draw is active or editing is
  locked the burst starts no save.
\<close>

theorem autosave_debounce_when_unblocked:
  assumes "e1 \<noteq> Position True" "e2 \<noteq> Position True" "e3 \<noteq> Position True"
      "e4 \<noteq> Position True" "e5 \<noteq> Position True" "e6 \<noteq> Position True"
    and "g1 < wait" "g2 < wait" "g3 < wait" "g4 < wait" and "wait \<le> w" "wait \<le> w'"
  shows
    "timeout (onCyEvent s e1) = Some (clock s + wait) \<and>
     onCyEvent s (Position True) = s \<and>
     (\<not> isEdgeHandlerActive s \<and> \<not> isEditingLocked s \<longrightarrow>
        saveStarted (run s [Cy e1, Elapse g1, Cy e2, Elapse g2, Cy e3, Elapse g3,
                            Cy e4, Elapse g4, Cy e5, Elapse w]) =
          (clock s + g1 + g2 + g3 + g4 + wait) # saveStarted s \<and>
        saveStarted (run s [Cy e1, Elapse g1, Cy e2, Elapse g2, Cy e3, Elapse g3,
                            Cy e4, Elapse g4, Cy e5, Elapse w, Cy e6, Elapse w']) =
          (clock s + g1 + g2 + g3 + g4 + w + wait) #
          (clock s + g1 + g2 + g3 + g4 + wait) # saveStarted s) \<and>
     (isEdgeHandlerActive s \<or> isEditingLocked s \<longrightarrow>
        saveStarted (run s [Cy e1, Elapse g1, Cy e2, Elapse g2, Cy e3, Elapse g3,
                            Cy e4, Elapse g4, Cy e5, Elapse w]) = saveStarted s)"
proof (intro conjI impI)
  let ?burst = "[Cy e1, Elapse g1, Cy e2, Elapse g2, Cy e3, Elapse g3,
                 Cy e4, Elapse g4, Cy e5, Elapse w]"
  note b = burst [OF assms(1-5) assms(7-11), of s]
  show "timeout (onCyEvent s e1) = Some (clock s + wait)"
    using assms(1) by (simp add: onCyEvent_autoSave autoSave_def)
  show "onCyEvent s (Position True) = s" by (rule onCyEvent_grabbed)
  {
    assume u: "\<not> isEdgeHandlerActive s \<and> \<not> isEditingLocked s"
    with b have r: "run s ?burst =
        s\<lparr>timeout := None, clock := clock s + g1 + g2 + g3 + g4 + w,
          saveStarted := (clock s + g1 + g2 + g3 + g4 + wait) # saveStarted s,
          saveInFlight := Suc (saveInFlight s)\<rparr>"
      by simp
    then show "saveStarted (run s ?burst) = (clock s + g1 + g2 + g3 + g4 + wait) # saveStarted s"
      by simp
    have "run s (?burst @ [Cy e6, Elapse w']) = run (run s ?burst) [Cy e6, Elapse w']"
      by (rule run_append)
    also have "\<dots> = elapse (onCyEvent (run s ?burst) e6) w'"
      by (simp add: run_Cy_Elapse run_Nil)
    finally have "saveStarted (run s (?burst @ [Cy e6, Elapse w'])) =
        (clock s + g1 + g2 + g3 + g4 + w + wait) #
        (clock s + g1 + g2 + g3 + g4 + wait) # saveStarted s"
      unfolding r using u assms(6) assms(12) by (simp add: mutation_then_fire)
    then show "saveStarted (run s [Cy e1, Elapse g1, Cy e2, Elapse g2, Cy e3, Elapse g3,
                            Cy e4, Elapse g4, Cy e5, Elapse w, Cy e6, Elapse w']) =
          (clock s + g1 + g2 + g3 + g4 + w + wait) #
          (clock s + g1 + g2 + g3 + g4 + wait) # saveStarted s"
      by simp
  }
  assume "isEdgeHandlerActive s \<or> isEditingLocked s"
  with b show "saveStarted (run s ?burst) = saveStarted s" by auto
qed

theorem autosave_debounce_when_unblocked_witness:
  "\<not> isEdgeHandlerActive exampleGroup \<and> \<not> isEditingLocked exampleGroup \<and>
   saveStarted (run exampleGroup
     [Cy Data, Elapse 100, Cy Add, Elapse 200, Cy Remove, Elapse 300, Cy Dragfree, Elapse 499,
      Cy (Position False), Elapse 500]) = [1599] \<and>
   saveStarted (run exampleGroup
     [Cy Data, Elapse 100, Cy Add, Elapse 200, Cy Remove, Elapse 300, Cy Dragfree, Elapse 499,
      Cy (Position False), Elapse 500, Cy Data, Elapse 600]) = [2099, 1599]"
proof -
  have u: "\<not> isEdgeHandlerActive exampleGroup" "\<not> isEditingLocked exampleGroup"
    "clock exampleGroup = 0" "saveStarted exampleGroup = []"
    by (simp_all add: example_defs)
  have "saveStarted (run exampleGroup
     [Cy Data, Elapse 100, Cy Add, Elapse 200, Cy Remove, Elapse 300, Cy Dragfree, Elapse 499,
      Cy (Position False), Elapse 500]) =
      (clock exampleGroup + 100 + 200 + 300 + 499 + wait) # saveStarted exampleGroup \<and>
    saveStarted (run exampleGroup
     [Cy Data, Elapse 100, Cy Add, Elapse 200, Cy Remove, Elapse 300, Cy Dragfree, Elapse 499,
      Cy (Position False), Elapse 500, Cy Data, Elapse 600]) =
      (clock exampleGroup + 100 + 200 + 300 + 499 + 500 + wait) #
      (clock exampleGroup + 100 + 200 + 300 + 499 + wait) # saveStarted exampleGroup"
    using u(1,2)
      autosave_debounce_when_unblocked
        [of Data Add Remove Dragfree "Position False" Data 100 200 300 499 500 600 exampleGroup]
    by (simp add: wait_def)
  with u show ?thesis by (simp add: wait_def)
qed

section \<open>Save requests are not serialized\<close>

lemma elapse_fires:
  "timeout s = Some t \<Longrightarrow> t \<le> clock s + d \<Longrightarrow>
     elapse s d = (autoSaveCallback (s\<lparr>clock := max t (clock s), timeout := None\<rparr>))
                    \<lparr>clock := clock s + d\<rparr>"
  by (simp add: elapse_def)

lemma autoSaveCallback_open:
  "\<not> isEdgeHandlerActive s \<Longrightarrow> \<not> isEditingLocked s \<Longrightarrow>
     autoSaveCallback s =
       s\<lparr>saveStarted := clock s # saveStarted s, saveInFlight := Suc (saveInFlight s)\<rparr>"
  by (simp add: autoSaveCallback_def isEditingBlocked_def startSave_def)

lemma step_SaveButton:
  "step s SaveButton =
     s\<lparr>saveStarted := clock s # saveStarted s, saveInFlight := Suc (saveInFlight s)\<rparr>"
  by (simp add: step_def viewportButtonsSaveTopo_def startSave_def)

text \<open>
  Nor do the starts of two requests keep a distance: a click on the Save button just
  before the timer fires starts a request one millisecond before the timer's own.
\<close>

lemma save_button_before_timer:
  "saveStarted (run exampleGroup [Cy Data, Elapse 499, SaveButton, Elapse 1]) = [500, 499] \<and>
   saveInFlight (run exampleGroup [Cy Data, Elapse 499, SaveButton, Elapse 1]) = 2"
  by (simp add: run_def step_def onCyEvent_def autoSave_def elapse_def autoSaveCallback_def
      viewportButtonsSaveTopo_def startSave_def isEditingBlocked_def wait_def example_defs)

text \<open>
  C6 as stated fails: two mutations a quiet period apart start two save requests, and
  with no answer to the first in between both are in flight at once.
\<close>

theorem autosave_two_saves_in_flight:
  "saveStarted (run exampleGroup [Cy Data, Elapse 500, Cy Data, Elapse 500]) = [1000, 500] \<and>
   saveInFlight (run exampleGroup [Cy Data, Elapse 500, Cy Data, Elapse 500]) = 2"
  by (simp add: run_Cy_Elapse run_Nil mutation_then_fire wait_def example_defs)

text \<open>
  C6, amended. Save requests are not serialized: when the debounce timer fires while no
  edge draw is active and editing is not locked, the callback starts the save request at
  once, whatever the number of requests still in flight. Nothing is queued, so a second
  save can start before the answer to the first has been observed, and more than one
  request can be outstanding at a time.
\<close>

theorem autosave_saves_not_serialized:
  "(\<not> isEdgeHandlerActive s \<and> \<not> isEditingLocked s \<longrightarrow>
      saveInFlight (autoSaveCallback s) = Suc (saveInFlight s) \<and>
      saveStarted (autoSaveCallback s) = clock s # saveStarted s) \<and>
   (timeout s = Some t \<and> t \<le> clock s + d \<and>
    \<not> isEdgeHandlerActive s \<and> \<not> isEditingLocked s \<longrightarrow>
      saveInFlight (step s (Elapse d)) = Suc (saveInFlight s) \<and>
      saveStarted (step s (Elapse d)) = max t (clock s) # saveStarted s)"
proof (intro conjI impI)
  assume "\<not> isEdgeHandlerActive s \<and> \<not> isEditingLocked s"
  then show "saveInFlight (autoSaveCallback s) = Suc (saveInFlight s)"
    "saveStarted (autoSaveCallback s) = clock s # saveStarted s"
    by (simp_all add: autoSaveCallback_open)
next
  assume a: "timeout s = Some t \<and> t \<le> clock s + d \<and>
    \<not> isEdgeHandlerActive s \<and> \<not> isEditingLocked s"
  then have e: "step s (Elapse d) =
      (autoSaveCallback (s\<lparr>clock := max t (clock s), timeout := None\<rparr>))\<lparr>clock := clock s + d\<rparr>"
    by (simp add: step_def elapse_fires)
  from a show "saveInFlight (step s (Elapse d)) = Suc (saveInFlight s)"
    unfolding e by (simp add: autoSaveCallback_open)
  from a show "saveStarted (step s (Elapse d)) = max t (clock s) # saveStarted s"
    unfolding e by (simp add: autoSaveCallback_open)
qed

theorem autosave_saves_not_serialized_witness:
  "\<not> isEdgeHandlerActive (run exampleGroup [Cy Data, Elapse 500, Cy Data]) \<and>
   \<not> isEditingLocked (run exampleGroup [Cy Data, Elapse 500, Cy Data]) \<and>
   timeout (run exampleGroup [Cy Data, Elapse 500, Cy Data]) = Some 1000 \<and>
   clock (run exampleGroup [Cy Data, Elapse 500, Cy Data]) = 500 \<and>
   saveInFlight (run exampleGroup [Cy Data, Elapse 500, Cy Data]) = 1 \<and>
   saveInFlight (step (run exampleGroup [Cy Data, Elapse 500, Cy Data]) (Elapse 500)) = 2 \<and>
   saveStarted (step (run exampleGroup [Cy Data, Elapse 500, Cy Data]) (Elapse 500)) =
     [1000, 500] \<and>
   saveInFlight (autoSaveCallback (run exampleGroup [Cy Data, Elapse 500])) = 2"
proof -
  let ?s = "run exampleGroup [Cy Data, Elapse 500, Cy Data]"
  let ?r = "run exampleGroup [Cy Data, Elapse 500]"
  note T = autosave_saves_not_serialized
  note cbI = T [where s = ?r, THEN conjunct1, THEN mp, THEN conjunct1]
  note fireI = T [where s = ?s and t = 1000 and d = 500, THEN conjunct2, THEN mp]
  have r: "\<not> isEdgeHandlerActive ?r" "\<not> isEditingLocked ?r" "saveInFlight ?r = 1"
    by (simp_all add: run_Cy_Elapse run_Nil mutation_then_fire wait_def example_defs)
  have u: "\<not> isEdgeHandlerActive ?s" "\<not> isEditingLocked ?s" "timeout ?s = Some 1000"
    "clock ?s = 500" "saveInFlight ?s = 1" "saveStarted ?s = [500]"
    by (simp_all add: run_def step_def onCyEvent_def autoSave_def elapse_def
        autoSaveCallback_def startSave_def isEditingBlocked_def wait_def example_defs)
  have f: "saveInFlight (step ?s (Elapse 500)) = Suc (saveInFlight ?s) \<and>
      saveStarted (step ?s (Elapse 500)) = max 1000 (clock ?s) # saveStarted ?s"
    using u by (intro fireI) simp
  have 1: "saveInFlight (step ?s (Elapse 500)) = 2"
    using f unfolding u by simp
  have 2: "saveStarted (step ?s (Elapse 500)) = [1000, 500]"
    using f unfolding u by simp
  have "saveInFlight (autoSaveCallback ?r) = Suc (saveInFlight ?r)"
    using r by (intro cbI) simp
  then have 3: "saveInFlight (autoSaveCallback ?r) = 2"
    unfolding r by simp
  show ?thesis
    apply (intro conjI)
           apply (rule u(1))
          apply (rule u(2))
         apply (rule u(3))
        apply (rule u(4))
       apply (rule u(5))
      apply (rule 1)
     apply (rule 2)
    apply (rule 3)
    done
qed

end
